theory Spec2Isabelle
  imports Complex_Main
begin

section \<open>The datatip manager of nuclide (DatatipManager.js)\<close>

text \<open>
  The development embeds the datatip coordination engine: the provider race
  \<open>getTopDatatipAndProvider\<close>, the per-editor session \<open>DatatipManagerForEditor\<close>
  and the top-level \<open>DatatipManager\<close>.  Mutable fields of a JavaScript object are
  fields of a record that every handler takes and returns; what the host editor
  answers at the time of a call (cursor, pointer geometry, clock, active editor,
  which pinned tips are hovered) is a record \<open>host\<close> passed to the handler.
\<close>

subsection \<open>JavaScript values read from the configuration\<close>

text \<open>
  A JavaScript number is a double: a finite value (every finite double is a
  rational), one of the two infinities, or NaN.  Comparison with \<open><\<close> is exact on
  doubles, and false whenever NaN takes part.
\<close>

datatype js_number = Finite rat | PosInfinity | NegInfinity | NaN

datatype js_value =
    JSUndefined
  | JSNull
  | JSBoolean bool
  | JSNumber js_number
  | JSString string
  | JSObject

fun typeof :: "js_value \<Rightarrow> string" where
  "typeof JSUndefined = ''undefined''"
| "typeof JSNull = ''object''"
| "typeof (JSBoolean b) = ''boolean''"
| "typeof (JSNumber n) = ''number''"
| "typeof (JSString s) = ''string''"
| "typeof JSObject = ''object''"

fun number_less :: "js_number \<Rightarrow> js_number \<Rightarrow> bool" where
  "number_less NaN y = False"
| "number_less x NaN = False"
| "number_less (Finite a) (Finite b) = (a < b)"
| "number_less (Finite a) PosInfinity = True"
| "number_less (Finite a) NegInfinity = False"
| "number_less PosInfinity y = False"
| "number_less NegInfinity NegInfinity = False"
| "number_less NegInfinity y = True"

text \<open>
  Arithmetic on doubles is IEEE 754 binary64 with rounding to nearest, ties to
  even: the result of an addition or a subtraction of two finite doubles is the
  exact result rounded.  \<open>bit_length n\<close> is the number of binary digits of \<open>n\<close>;
  \<open>floor_log2 q\<close> is, for a positive \<open>q\<close>, the exponent \<open>k\<close> with
  \<open>2 ^ k \<le> q < 2 ^ (k + 1)\<close>.  A double has 53 significant bits, its exponent
  is at least -1022 (below that the spacing stays \<open>2 ^ -1074\<close>), and a
  rounded magnitude of \<open>2 ^ 1024\<close> or more is an infinity.  A finite number in
  this development is a rational; when it is a double it stands for that
  double, and the sign of zero is not kept.
\<close>

fun bit_length :: "nat \<Rightarrow> nat" where
  "bit_length n = (if n = 0 then 0 else Suc (bit_length (n div 2)))"

declare bit_length.simps [simp del]

definition floor_log2 :: "rat \<Rightarrow> int" where
  "floor_log2 q =
     (if 1 \<le> q then int (bit_length (nat \<lfloor>q\<rfloor>)) - 1
      else - int (bit_length (nat (\<lceil>1 / q\<rceil> - 1))))"

definition round_half_even :: "rat \<Rightarrow> int" where
  "round_half_even m =
     (let n = \<lfloor>m\<rfloor>; r = m - of_int n
      in if r < 1 / 2 then n
         else if 1 / 2 < r then n + 1
         else if even n then n else n + 1)"

definition round_double :: "rat \<Rightarrow> js_number" where
  "round_double x =
     (if x = 0 then Finite 0
      else
        (let e = max (floor_log2 \<bar>x\<bar>) (- 1022);
             ulp = 2 powi (e - 52);
             y = of_int (round_half_even (\<bar>x\<bar> / ulp)) * ulp
         in if 2 powi 1024 \<le> y then (if x < 0 then NegInfinity else PosInfinity)
            else Finite (if x < 0 then - y else y)))"

fun number_add :: "js_number \<Rightarrow> js_number \<Rightarrow> js_number" where
  "number_add NaN y = NaN"
| "number_add x NaN = NaN"
| "number_add (Finite a) (Finite b) = round_double (a + b)"
| "number_add (Finite a) PosInfinity = PosInfinity"
| "number_add (Finite a) NegInfinity = NegInfinity"
| "number_add PosInfinity NegInfinity = NaN"
| "number_add PosInfinity y = PosInfinity"
| "number_add NegInfinity PosInfinity = NaN"
| "number_add NegInfinity y = NegInfinity"

fun number_sub :: "js_number \<Rightarrow> js_number \<Rightarrow> js_number" where
  "number_sub NaN y = NaN"
| "number_sub x NaN = NaN"
| "number_sub (Finite a) (Finite b) = round_double (a - b)"
| "number_sub (Finite a) PosInfinity = NegInfinity"
| "number_sub (Finite a) NegInfinity = PosInfinity"
| "number_sub PosInfinity PosInfinity = NaN"
| "number_sub PosInfinity y = PosInfinity"
| "number_sub NegInfinity NegInfinity = NaN"
| "number_sub NegInfinity y = NegInfinity"

text \<open>
  \<open>value < 0\<close> as \<open>ensurePositiveNumber\<close> evaluates it: the left operand of \<open>||\<close>
  has already established that the value is a number, so the comparison is only
  ever reached on a \<open>JSNumber\<close>.
\<close>

fun less_than_zero :: "js_value \<Rightarrow> bool" where
  "less_than_zero (JSNumber n) = number_less n (Finite 0)"
| "less_than_zero v = False"

definition CUMULATIVE_WHEELX_THRESHOLD :: rat where
  "CUMULATIVE_WHEELX_THRESHOLD = 20"

definition DEFAULT_DATATIP_DEBOUNCE_DELAY :: js_value where
  "DEFAULT_DATATIP_DEBOUNCE_DELAY = JSNumber (Finite 1000)"

definition DEFAULT_DATATIP_INTERACTED_DEBOUNCE_DELAY :: js_value where
  "DEFAULT_DATATIP_INTERACTED_DEBOUNCE_DELAY = JSNumber (Finite 1000)"

definition ensurePositiveNumber :: "js_value \<Rightarrow> js_value \<Rightarrow> js_value" where
  "ensurePositiveNumber val defaultValue =
     (if typeof val \<noteq> ''number'' \<or> less_than_zero val then defaultValue else val)"

text \<open>
  \<open>featureConfig.get\<close> is a lookup by key in the configuration; the two delays are
  the second argument that \<open>_setStartFetchingDebounce\<close> and
  \<open>_setHideIfOutsideDebounce\<close> hand to \<open>debounce\<close>.
\<close>

type_synonym featureConfig = "string \<Rightarrow> js_value"

definition startFetchingDelay :: "featureConfig \<Rightarrow> js_value" where
  "startFetchingDelay cfg =
     ensurePositiveNumber (cfg ''nuclide-datatip.datatipDebounceDelay'')
       DEFAULT_DATATIP_DEBOUNCE_DELAY"

definition hideIfOutsideDelay :: "featureConfig \<Rightarrow> js_value" where
  "hideIfOutsideDelay cfg =
     ensurePositiveNumber (cfg ''nuclide-datatip.datatipInteractedWithDebounceDelay'')
       DEFAULT_DATATIP_INTERACTED_DEBOUNCE_DELAY"

text \<open>The words of the configuration claim: a negative and a non-negative number.\<close>

fun negative_number :: "js_value \<Rightarrow> bool" where
  "negative_number (JSNumber (Finite r)) = (r < 0)"
| "negative_number (JSNumber NegInfinity) = True"
| "negative_number v = False"

fun non_negative_number :: "js_value \<Rightarrow> bool" where
  "non_negative_number (JSNumber (Finite r)) = (0 \<le> r)"
| "non_negative_number (JSNumber PosInfinity) = True"
| "non_negative_number v = False"

subsection \<open>Buffer coordinates, datatips and providers\<close>

text \<open>
  \<open>atom$Point\<close> and \<open>atom$Range\<close> belong to the host editor.  A point is a row and
  a column; \<open>containsPoint\<close> is the host's inclusive test, points compared row
  first.  No result below depends on how the test is computed.
\<close>

type_synonym point = "nat \<times> nat"

record range =
  range_start :: point
  range_end :: point

definition point_le :: "point \<Rightarrow> point \<Rightarrow> bool" where
  "point_le p q = (fst p < fst q \<or> (fst p = fst q \<and> snd p \<le> snd q))"

definition containsPoint :: "range \<Rightarrow> point \<Rightarrow> bool" where
  "containsPoint r p = (point_le (range_start r) p \<and> point_le p (range_end r))"

record datatip =
  payload :: string
  datatip_range :: "range option"
  pinnable :: "bool option"

text \<open>
  The fields of \<open>AnyDatatipProvider\<close> that the manager reads.  A missing
  \<open>providerName\<close> (null or undefined) is \<open>None\<close>.
\<close>

record provider =
  providerName :: "string option"
  inclusionPriority :: int
  validForScope :: "string \<Rightarrow> bool"

text \<open>
  What invoking a provider comes to: the promise resolves to a datatip or to
  null, the call throws before it returns a promise, the promise rejects, or the
  promise never settles.
\<close>

datatype invocation =
    Resolves "datatip option"
  | Throws string
  | Rejects string
  | NeverSettles

datatype 'a promise = Fulfilled 'a | Unsettled

record datatipAndProvider =
  top_datatip :: datatip
  top_provider :: provider

text \<open>
  Entries written to the logger and to the timing tracker.  \<open>LogNoName\<close> is
  \<open>logger.error('Datatip provider has no name', provider)\<close>;
  \<open>LogDatatipError name e\<close> is the entry
  \<open>Error getting datatip from provider name\<close> with the error \<open>e\<close>.
\<close>

datatype effect =
    LogNoName
  | LogDatatipError string string
  | TimingSuccess string
  | TimingError string string

definition getProviderName :: "provider \<Rightarrow> string \<times> effect list" where
  "getProviderName p =
     (case providerName p of
        None \<Rightarrow> (''unknown'', [LogNoName])
      | Some n \<Rightarrow> (n, []))"

text \<open>
  \<open>Array.prototype.sort\<close> with the comparator \<open>b.priority - a.priority\<close>: a stable
  sort by descending priority.
\<close>

definition filterProvidersByScopeName :: "provider list \<Rightarrow> string \<Rightarrow> provider list" where
  "filterProvidersByScopeName providers scopeName =
     sort_key (\<lambda>p. - inclusionPriority p)
       (filter (\<lambda>p. inclusionPriority p > 0 \<and> validForScope p scopeName) providers)"

text \<open>
  The async arrow function that \<open>getTopDatatipAndProvider\<close> maps over the
  providers: the promise it returns never rejects, and the entries it writes.
\<close>

definition datatipPromise ::
  "(provider \<Rightarrow> invocation) \<Rightarrow> provider \<Rightarrow> datatipAndProvider option promise \<times> effect list"
where
  "datatipPromise invoke p =
     (let (name, named) = getProviderName p in
      case invoke p of
        Resolves None \<Rightarrow> (Fulfilled None, named)
      | Resolves (Some d) \<Rightarrow>
          (Fulfilled (Some \<lparr>top_datatip = d, top_provider = p\<rparr>),
           named @ [TimingSuccess (name @ ''.datatip'')])
      | Throws e \<Rightarrow>
          (Fulfilled None,
           named @ [TimingError (name @ ''.datatip'') e, LogDatatipError name e])
      | Rejects e \<Rightarrow>
          (Fulfilled None,
           named @ [TimingError (name @ ''.datatip'') e, LogDatatipError name e])
      | NeverSettles \<Rightarrow> (Unsettled, named))"

text \<open>
  Modelled from the spec: \<open>asyncFind\<close> of nuclide-commons/promise is not among the
  sources.  The spec describes it as the early-exit "find first truthy"
  combinator that awaits the items in their original order; here the test is
  the identity on promises, so the first promise in list order that fulfils
  with a non-null value decides, and a promise that never settles before it
  keeps the result from settling.
\<close>

fun asyncFind :: "'a option promise list \<Rightarrow> 'a option promise" where
  "asyncFind [] = Fulfilled None"
| "asyncFind (Unsettled # ps) = Unsettled"
| "asyncFind (Fulfilled None # ps) = asyncFind ps"
| "asyncFind (Fulfilled (Some x) # ps) = Fulfilled (Some x)"

text \<open>
  The race.  The editor enters through its grammar's scope name only, and the
  position through the closure \<open>invoke\<close>.  The entries are listed provider by
  provider; in the running program entries of different providers may
  interleave, so only their number and content are meaningful.
\<close>

definition getTopDatatipAndProvider ::
  "provider list \<Rightarrow> string \<Rightarrow> (provider \<Rightarrow> invocation) \<Rightarrow>
     datatipAndProvider option promise \<times> effect list"
where
  "getTopDatatipAndProvider providers scopeName invoke =
     (let filteredDatatipProviders = filterProvidersByScopeName providers scopeName in
      if length filteredDatatipProviders = 0 then (Fulfilled None, [])
      else
        (let datatipPromises = map (datatipPromise invoke) providers in
         (asyncFind (map fst datatipPromises), concat (map snd datatipPromises))))"

subsection \<open>The host editor\<close>

record pixel =
  pixel_top :: rat
  pixel_left :: rat

datatype ModifierKey = META | SHIFT | ALT | CTRL

text \<open>
  A mouse event carries the pointer's coordinates and the modifier keys held.
  Modelled from the spec: \<open>getModifierKeysFromMouseEvent\<close> (./getModifierKeys) is
  not among the sources; the spec says the held-modifier set is recomputed from
  the raw event, so it is the event's own set of modifiers.
\<close>

record mouse_event =
  clientX :: rat
  clientY :: rat
  eventModifiers :: "ModifierKey set"

definition getModifierKeysFromMouseEvent :: "mouse_event \<Rightarrow> ModifierKey set" where
  "getModifierKeysFromMouseEvent e = eventModifiers e"

record textComponent =
  screenPositionForMouseEvent :: "mouse_event \<Rightarrow> point"
  pixelPositionForMouseEvent :: "mouse_event \<Rightarrow> pixel"
  pixelPositionForScreenPosition :: "point \<Rightarrow> pixel"

text \<open>
  What the host answers when a handler runs: the editor's grammar, text
  component and cursor, whether the editor is the workspace's active one,
  \<open>performance.now()\<close>, and \<open>isHovering()\<close> of each pinned datatip (a pinned
  datatip is named by a number, the identity of the object).
\<close>

record host =
  grammarScopeName :: string
  component :: "textComponent option"
  defaultCharWidth :: rat
  bufferPositionForScreenPosition :: "point \<Rightarrow> point"
  cursorBufferPosition :: point
  cursorScreenPosition :: point
  activeTextEditor :: bool
  performanceNow :: rat
  isHovering :: "nat \<Rightarrow> bool"

definition getBufferPosition :: "host \<Rightarrow> mouse_event option \<Rightarrow> point option" where
  "getBufferPosition h event =
     (case event of
        None \<Rightarrow> None
      | Some ev \<Rightarrow>
          (case component h of
             None \<Rightarrow> None
           | Some text \<Rightarrow>
               (let screenPosition = screenPositionForMouseEvent text ev;
                    pixelPosition = pixelPositionForMouseEvent text ev;
                    pixelPositionFromScreenPosition =
                      pixelPositionForScreenPosition text screenPosition;
                    horizontalDistance =
                      number_sub (Finite (pixel_left pixelPosition))
                        (Finite (pixel_left pixelPositionFromScreenPosition))
                in if pixel_left pixelPosition < 0
                      \<or> number_less (Finite (defaultCharWidth h)) horizontalDistance
                   then None
                   else Some (bufferPositionForScreenPosition h screenPosition))))"

subsection \<open>The session: DatatipManagerForEditor\<close>

datatype DatatipState = HIDDEN | FETCHING | VISIBLE

datatype action = PIN

record datatipComponent =
  dc_action :: "action option"
  dc_actionTitle :: "string option"
  dc_datatip :: datatip

definition PinnableDatatip :: "datatip \<Rightarrow> datatipComponent" where
  "PinnableDatatip d =
     (if pinnable d \<noteq> Some False
      then \<lparr>dc_action = Some PIN, dc_actionTitle = Some ''Pin this Datatip'', dc_datatip = d\<rparr>
      else \<lparr>dc_action = None, dc_actionTitle = None, dc_datatip = d\<rparr>)"

text \<open>The rendered providers: one pinnable datatip for each result, keyed by provider name.\<close>

type_synonym rendered = "(string \<times> datatipComponent) list"

record fetched =
  fetched_range :: "range option"
  renderedProviders :: rendered

text \<open>
  The overlay element \<open>_datatipElement\<close>: what React has rendered into it, and
  its \<open>style.display\<close>.
\<close>

record element =
  rendered :: "rendered option"
  display :: string

record marker =
  markedRange :: range

text \<open>
  Modelled from the spec: \<open>debounce\<close> of nuclide-commons is not among the sources.
  The spec describes a reschedulable single-shot timer: calling the debounced
  function arms the timer (again), and one firing runs the body once.
\<close>

record debounced =
  wait :: js_value
  timerPending :: bool

definition debounce :: "js_value \<Rightarrow> debounced" where
  "debounce w = \<lparr>wait = w, timerPending = False\<rparr>"

definition callDebounced :: "debounced \<Rightarrow> debounced" where
  "callDebounced d = d\<lparr>timerPending := True\<rparr>"

text \<open>
  The three closures handed to \<open>_startFetching\<close> as \<open>getPosition\<close>:
  \<open>getCursorBufferPosition\<close>, \<open>getBufferPosition\<close> of the last mouse-move event,
  and \<open>getCursorScreenPosition\<close>.
\<close>

datatype positionGetter = CursorBufferPosition | MouseBufferPosition | CursorScreenPosition

text \<open>
  The fields of the class.  Fields the constructor leaves undefined start as
  \<open>None\<close> or \<open>False\<close>.  \<open>inflight\<close> is not a field of the class: it lists the
  calls of \<open>_startFetching\<close> that are suspended at their \<open>await\<close>, each with the
  closure it was called with.  The cached promise
  \<open>_lastDatatipAndProviderPromise\<close> is always the one created for
  \<open>_lastPosition\<close>; what a promise fulfils with is given when it settles.
\<close>

record session =
  editor :: nat
  blacklistedPosition :: "point option"
  datatipElement :: element
  datatipState :: DatatipState
  insideDatatip :: bool
  lastHiddenTime :: rat
  lastFetchedFromCursorPosition :: bool
  lastMoveEvent :: "mouse_event option"
  lastPosition :: "point option"
  heldKeys :: "ModifierKey set"
  marker :: "marker option"
  pinnedDatatips :: "nat list"
  sessionRange :: "range option"
  shouldDropNextMouseMoveAfterFocus :: bool
  startFetchingDebounce :: debounced
  hideIfOutsideDebounce :: debounced
  interactedWith :: bool
  cumulativeWheelX :: js_number
  inflight :: "positionGetter list"

definition setStartFetchingDebounce :: "featureConfig \<Rightarrow> session \<Rightarrow> session" where
  "setStartFetchingDebounce cfg s =
     s\<lparr>startFetchingDebounce := debounce (startFetchingDelay cfg)\<rparr>"

definition setHideIfOutsideDebounce :: "featureConfig \<Rightarrow> session \<Rightarrow> session" where
  "setHideIfOutsideDebounce cfg s =
     s\<lparr>hideIfOutsideDebounce := debounce (hideIfOutsideDelay cfg)\<rparr>"

text \<open>
  The constructor; \<open>featureConfig.observe\<close> calls both observers at once with the
  current configuration.
\<close>

definition newSession :: "nat \<Rightarrow> featureConfig \<Rightarrow> session" where
  "newSession ed cfg =
     \<lparr>editor = ed,
      blacklistedPosition = None,
      datatipElement = \<lparr>rendered = None, display = []\<rparr>,
      datatipState = HIDDEN,
      insideDatatip = False,
      lastHiddenTime = 0,
      lastFetchedFromCursorPosition = False,
      lastMoveEvent = None,
      lastPosition = None,
      heldKeys = {},
      marker = None,
      pinnedDatatips = [],
      sessionRange = None,
      shouldDropNextMouseMoveAfterFocus = False,
      startFetchingDebounce = debounce (startFetchingDelay cfg),
      hideIfOutsideDebounce = debounce (hideIfOutsideDelay cfg),
      interactedWith = False,
      cumulativeWheelX = Finite 0,
      inflight = []\<rparr>"

definition hideDatatip :: "host \<Rightarrow> session \<Rightarrow> session" where
  "hideDatatip h s =
     s\<lparr>lastHiddenTime := performanceNow h,
       marker := None,
       sessionRange := None,
       datatipElement := \<lparr>rendered = None, display = ''none''\<rparr>\<rparr>"

definition setState :: "host \<Rightarrow> DatatipState \<Rightarrow> session \<Rightarrow> session" where
  "setState h newState s =
     (let oldState = datatipState s;
          s1 = s\<lparr>datatipState := newState\<rparr>
      in if newState = HIDDEN
         then (let s2 = s1\<lparr>blacklistedPosition := None\<rparr>
               in if oldState \<noteq> HIDDEN then hideDatatip h s2 else s2)
         else s1)"

definition isHoveringOverPinnedTip :: "host \<Rightarrow> session \<Rightarrow> bool" where
  "isHoveringOverPinnedTip h s =
     (let hoveringTips = filter (isHovering h) (pinnedDatatips s)
      in length hoveringTips > 0)"

definition getPosition :: "host \<Rightarrow> session \<Rightarrow> positionGetter \<Rightarrow> point option" where
  "getPosition h s g =
     (case g of
        CursorBufferPosition \<Rightarrow> Some (cursorBufferPosition h)
      | MouseBufferPosition \<Rightarrow> getBufferPosition h (lastMoveEvent s)
      | CursorScreenPosition \<Rightarrow> Some (cursorScreenPosition h))"

text \<open>
  \<open>_fetchAndRender\<close> up to its \<open>await\<close>: the position cache.  The provider races
  it starts are \<open>getTopDatatipAndProvider\<close> above.
\<close>

definition fetchAndRender_begin :: "point \<Rightarrow> session \<Rightarrow> session" where
  "fetchAndRender_begin position s =
     (if lastPosition s \<noteq> None \<and> Some position = lastPosition s then s
      else s\<lparr>lastPosition := Some position\<rparr>)"

datatype js_error = TypeError | JSError string

fun arrayCompact :: "'a option list \<Rightarrow> 'a list" where
  "arrayCompact [] = []"
| "arrayCompact (None # xs) = arrayCompact xs"
| "arrayCompact (Some x # xs) = x # arrayCompact xs"

text \<open>
  \<open>_fetchAndRender\<close> after its \<open>await\<close>, from what the plain and the modifier race
  fulfilled with.  Reading \<open>range.start\<close> of a datatip without a range throws, so
  the promise rejects.
\<close>

definition fetchAndRender_result ::
  "datatipAndProvider option \<Rightarrow> datatipAndProvider option \<Rightarrow> js_error + fetched option"
where
  "fetchAndRender_result plain modifier =
     (let datatipsAndProviders = arrayCompact [plain, modifier] in
      case datatipsAndProviders of
        [] \<Rightarrow> Inr None
      | first # rest \<Rightarrow>
          (case datatip_range (top_datatip first) of
             None \<Rightarrow> Inl TypeError
           | Some r \<Rightarrow>
               Inr (Some \<lparr>fetched_range = Some r,
                          renderedProviders =
                            map (\<lambda>dp. (fst (getProviderName (top_provider dp)),
                                       PinnableDatatip (top_datatip dp)))
                              datatipsAndProviders\<rparr>)))"

definition mountDatatipWithMarker :: "element \<Rightarrow> range \<Rightarrow> rendered \<Rightarrow> marker \<times> element" where
  "mountDatatipWithMarker el r rp =
     (\<lparr>markedRange = r\<rparr>, el\<lparr>rendered := Some rp, display := ''block''\<rparr>)"

text \<open>\<open>_startFetching\<close> up to its \<open>await\<close>.\<close>

definition startFetching :: "host \<Rightarrow> positionGetter \<Rightarrow> session \<Rightarrow> session" where
  "startFetching h g s =
     (case getPosition h s g of
        None \<Rightarrow> s
      | Some position \<Rightarrow>
          (let s1 = setState h FETCHING s;
               s2 = fetchAndRender_begin position s1
           in s2\<lparr>inflight := inflight s2 @ [g]\<rparr>))"

definition blacklisted :: "session \<Rightarrow> fetched \<Rightarrow> bool" where
  "blacklisted s d =
     (case blacklistedPosition s of
        None \<Rightarrow> False
      | Some b \<Rightarrow> (case fetched_range d of None \<Rightarrow> False | Some r \<Rightarrow> containsPoint r b))"

text \<open>\<open>_startFetching\<close> from its \<open>await\<close> on, given what \<open>_fetchAndRender\<close> resolved to.\<close>

definition startFetching_resume ::
  "host \<Rightarrow> positionGetter \<Rightarrow> fetched option \<Rightarrow> session \<Rightarrow> session"
where
  "startFetching_resume h g data s =
     (case data of
        None \<Rightarrow> setState h HIDDEN s
      | Some d \<Rightarrow>
          (let s1 = (if datatipState s \<noteq> FETCHING then setState h HIDDEN s else s) in
           if blacklisted s1 d then setState h HIDDEN s1
           else
             (case getPosition h s1 g of
                None \<Rightarrow> setState h HIDDEN s1
              | Some currentPosition \<Rightarrow>
                  (case fetched_range d of
                     None \<Rightarrow> setState h HIDDEN s1
                   | Some r \<Rightarrow>
                       if \<not> containsPoint r currentPosition then setState h HIDDEN s1
                       else if isHoveringOverPinnedTip h s1 then setState h HIDDEN s1
                       else
                         (let s2 = setState h VISIBLE s1;
                              s3 = s2\<lparr>interactedWith := False,
                                      cumulativeWheelX := Finite 0,
                                      sessionRange := fetched_range d\<rparr>;
                              (m, el) = mountDatatipWithMarker (datatipElement s3) r
                                          (renderedProviders d)
                          in s3\<lparr>marker := Some m, datatipElement := el\<rparr>)))))"

definition hideOrCancel :: "host \<Rightarrow> session \<Rightarrow> session" where
  "hideOrCancel h s =
     (if datatipState s = HIDDEN \<or> datatipState s = FETCHING
      then s\<lparr>blacklistedPosition := getBufferPosition h (lastMoveEvent s)\<rparr>
      else setState h HIDDEN s)"

definition hideIfOutsideImmediate :: "host \<Rightarrow> session \<Rightarrow> session" where
  "hideIfOutsideImmediate h s =
     (if datatipState s \<noteq> VISIBLE then s
      else if insideDatatip s then s
      else if isHoveringOverPinnedTip h s then setState h HIDDEN s
      else
        (case getBufferPosition h (lastMoveEvent s) of
           None \<Rightarrow> setState h HIDDEN s
         | Some currentPosition \<Rightarrow>
             (case sessionRange s of
                None \<Rightarrow> setState h HIDDEN s
              | Some r \<Rightarrow>
                  if containsPoint r currentPosition then s else setState h HIDDEN s)))"

definition hideIfOutside :: "host \<Rightarrow> session \<Rightarrow> session" where
  "hideIfOutside h s =
     (if datatipState s \<noteq> VISIBLE then s
      else if interactedWith s
      then s\<lparr>hideIfOutsideDebounce := callDebounced (hideIfOutsideDebounce s)\<rparr>
      else hideIfOutsideImmediate h s)"

definition fetchInResponseToKeyPress :: "host \<Rightarrow> session \<Rightarrow> session" where
  "fetchInResponseToKeyPress h s =
     (if lastFetchedFromCursorPosition s
      then startFetching h CursorBufferPosition s
      else startFetching h MouseBufferPosition s)"

text \<open>
  Modelled from the spec: the class \<open>PinnedDatatip\<close> (./PinnedDatatip) is not among
  the sources.  The spec says it owns a datatip snapshot and an editor
  reference; the object the constructor returns is named by \<open>pid\<close>.
\<close>

record PinnedDatatip =
  pinned_id :: nat
  pinned_datatip :: datatip
  pinned_editor :: nat

definition createPinnedDataTip ::
  "session \<Rightarrow> nat \<Rightarrow> datatip \<Rightarrow> nat \<Rightarrow> PinnedDatatip \<times> session"
where
  "createPinnedDataTip s pid d ed =
     (let pinnedDatatip = \<lparr>pinned_id = pid, pinned_datatip = d, pinned_editor = ed\<rparr>
      in (pinnedDatatip, s))"

text \<open>\<open>Set.prototype.add\<close> and \<open>delete\<close> on the set of pinned datatips.\<close>

definition set_add :: "nat \<Rightarrow> nat list \<Rightarrow> nat list" where
  "set_add x xs = (if x \<in> set xs then xs else xs @ [x])"

definition set_delete :: "nat \<Rightarrow> nat list \<Rightarrow> nat list" where
  "set_delete x xs = removeAll x xs"

definition handlePinClicked :: "host \<Rightarrow> nat \<Rightarrow> datatip \<Rightarrow> session \<Rightarrow> session" where
  "handlePinClicked h pid d s =
     (let s1 = setState h HIDDEN s
      in s1\<lparr>pinnedDatatips := set_add pid (pinnedDatatips s1)\<rparr>)"

text \<open>
  \<open>_toggleDatatip\<close>; the argument is \<open>idx(e, _ => _.originalEvent.type)\<close>, the type
  of the original event when the command came with one.  The time since the
  last hide is the difference of two doubles, as the code computes it.
\<close>

definition toggleDatatip :: "host \<Rightarrow> string option \<Rightarrow> session \<Rightarrow> session" where
  "toggleDatatip h maybeEventType s =
     (if \<not> activeTextEditor h then s
      else
        (let forceShow =
               (maybeEventType = Some ''keydown''
                \<and> number_less (Finite 100)
                      (number_sub (Finite (performanceNow h)) (Finite (lastHiddenTime s))));
             forceHide = (maybeEventType = Some ''keyup'');
             forceToggle =
               (maybeEventType \<noteq> Some ''keydown'' \<and> maybeEventType \<noteq> Some ''keyup'')
         in if forceShow \<or> (forceToggle \<and> datatipState s = HIDDEN)
            then startFetching h CursorScreenPosition
                   (s\<lparr>lastFetchedFromCursorPosition := True\<rparr>)
            else if forceHide \<or> forceToggle then hideOrCancel h s
            else s))"

definition dispose :: "host \<Rightarrow> session \<Rightarrow> session" where
  "dispose h s = setState h HIDDEN s"

subsection \<open>Events of a session\<close>

text \<open>
  Everything that makes a session run: the subscriptions of the constructor,
  the two debounce timers, a suspended \<open>_startFetching\<close> whose \<open>await\<close> settles,
  the pin button of a rendered datatip, and the two callbacks handed to a
  pinned datatip.  \<open>MouseDown inside\<close> tells whether the target lies inside the
  overlay element; \<open>KeyDown k\<close> and \<open>KeyUp k\<close> carry what
  \<open>getModifierKeyFromKeyboardEvent\<close> returns for the event;
  \<open>FetchSettled g plain modifier\<close> carries the closure of the suspended call and
  what the plain and the modifier race fulfilled with.
\<close>

datatype event =
    Focus
  | Blur
  | MouseMove mouse_event
  | MouseLeave
  | MouseDown bool
  | KeyDown "ModifierKey option"
  | KeyUp "ModifierKey option"
  | Wheel rat
  | ElementMouseDown
  | ElementMouseEnter
  | ElementMouseLeave
  | ScrollTop
  | Toggle "string option"
  | StartFetchingTimer
  | HideIfOutsideTimer
  | FetchSettled positionGetter "datatipAndProvider option" "datatipAndProvider option"
  | PinClicked nat datatip
  | PinnedDisposed nat
  | PinnedHideDataTips

definition onFocus :: "host \<Rightarrow> session \<Rightarrow> session" where
  "onFocus h s =
     (let s1 = s\<lparr>shouldDropNextMouseMoveAfterFocus := True\<rparr>
      in if \<not> insideDatatip s1 then setState h HIDDEN s1 else s1)"

definition onBlur :: "host \<Rightarrow> session \<Rightarrow> session" where
  "onBlur h s = (if \<not> insideDatatip s then setState h HIDDEN s else s)"

definition onMouseMove :: "host \<Rightarrow> mouse_event \<Rightarrow> session \<Rightarrow> session" where
  "onMouseMove h e s =
     (let s1 = s\<lparr>lastFetchedFromCursorPosition := False\<rparr> in
      if shouldDropNextMouseMoveAfterFocus s1
      then s1\<lparr>shouldDropNextMouseMoveAfterFocus := False\<rparr>
      else
        (let s2 = s1\<lparr>lastMoveEvent := Some e,
                      heldKeys := getModifierKeysFromMouseEvent e\<rparr>
         in if datatipState s2 = HIDDEN
            then s2\<lparr>startFetchingDebounce := callDebounced (startFetchingDebounce s2)\<rparr>
            else hideIfOutside h s2))"

definition onMouseLeave :: "host \<Rightarrow> session \<Rightarrow> session" where
  "onMouseLeave h s = hideIfOutside h (s\<lparr>lastMoveEvent := None\<rparr>)"

definition onMouseDown :: "host \<Rightarrow> bool \<Rightarrow> session \<Rightarrow> session" where
  "onMouseDown h insideElement s = (if insideElement then s else hideOrCancel h s)"

definition onKeyDown :: "host \<Rightarrow> ModifierKey option \<Rightarrow> session \<Rightarrow> session" where
  "onKeyDown h modifierKey s =
     (case modifierKey of
        Some k \<Rightarrow>
          (let s1 = s\<lparr>heldKeys := insert k (heldKeys s)\<rparr>
           in if datatipState s1 \<noteq> HIDDEN then fetchInResponseToKeyPress h s1 else s1)
      | None \<Rightarrow> hideOrCancel h s)"

definition onKeyUp :: "host \<Rightarrow> ModifierKey option \<Rightarrow> session \<Rightarrow> session" where
  "onKeyUp h modifierKey s =
     (case modifierKey of
        Some k \<Rightarrow>
          (let s1 = s\<lparr>heldKeys := heldKeys s - {k}\<rparr>
           in if datatipState s1 \<noteq> HIDDEN then fetchInResponseToKeyPress h s1 else s1)
      | None \<Rightarrow> s)"

definition onWheel :: "rat \<Rightarrow> session \<Rightarrow> session" where
  "onWheel deltaX s =
     (let s1 = s\<lparr>cumulativeWheelX :=
                   number_add (cumulativeWheelX s) (Finite \<bar>deltaX\<bar>)\<rparr>
      in if number_less (Finite CUMULATIVE_WHEELX_THRESHOLD) (cumulativeWheelX s1)
         then s1\<lparr>interactedWith := True\<rparr>
         else s1)"

definition onScrollTop :: "host \<Rightarrow> session \<Rightarrow> session" where
  "onScrollTop h s =
     (let s1 = s\<lparr>lastMoveEvent := None\<rparr>
      in if datatipState s1 = VISIBLE then setState h HIDDEN s1 else s1)"

text \<open>The debounced bodies run when their timer fires, if it is armed.\<close>

definition onStartFetchingTimer :: "host \<Rightarrow> session \<Rightarrow> session" where
  "onStartFetchingTimer h s =
     (if timerPending (startFetchingDebounce s)
      then startFetching h MouseBufferPosition
             (s\<lparr>startFetchingDebounce := (startFetchingDebounce s)\<lparr>timerPending := False\<rparr>\<rparr>)
      else s)"

definition onHideIfOutsideTimer :: "host \<Rightarrow> session \<Rightarrow> session" where
  "onHideIfOutsideTimer h s =
     (if timerPending (hideIfOutsideDebounce s)
      then hideIfOutsideImmediate h
             (s\<lparr>hideIfOutsideDebounce := (hideIfOutsideDebounce s)\<lparr>timerPending := False\<rparr>\<rparr>)
      else s)"

text \<open>
  A suspended \<open>_startFetching\<close> goes on when \<open>_fetchAndRender\<close> settles; when that
  promise rejects, the call ends there and assigns nothing.
\<close>

definition onFetchSettled ::
  "host \<Rightarrow> positionGetter \<Rightarrow> datatipAndProvider option \<Rightarrow> datatipAndProvider option \<Rightarrow>
     session \<Rightarrow> session"
where
  "onFetchSettled h g plain modifier s =
     (if g \<notin> set (inflight s) then s
      else
        (let s0 = s\<lparr>inflight := remove1 g (inflight s)\<rparr> in
         case fetchAndRender_result plain modifier of
           Inl err \<Rightarrow> s0
         | Inr data \<Rightarrow> startFetching_resume h g data s0))"

fun handle :: "host \<Rightarrow> event \<Rightarrow> session \<Rightarrow> session" where
  "handle h Focus s = onFocus h s"
| "handle h Blur s = onBlur h s"
| "handle h (MouseMove e) s = onMouseMove h e s"
| "handle h MouseLeave s = onMouseLeave h s"
| "handle h (MouseDown insideElement) s = onMouseDown h insideElement s"
| "handle h (KeyDown k) s = onKeyDown h k s"
| "handle h (KeyUp k) s = onKeyUp h k s"
| "handle h (Wheel deltaX) s = onWheel deltaX s"
| "handle h ElementMouseDown s = s\<lparr>interactedWith := True\<rparr>"
| "handle h ElementMouseEnter s = hideIfOutside h (s\<lparr>insideDatatip := True\<rparr>)"
| "handle h ElementMouseLeave s = hideIfOutside h (s\<lparr>insideDatatip := False\<rparr>)"
| "handle h ScrollTop s = onScrollTop h s"
| "handle h (Toggle t) s = toggleDatatip h t s"
| "handle h StartFetchingTimer s = onStartFetchingTimer h s"
| "handle h HideIfOutsideTimer s = onHideIfOutsideTimer h s"
| "handle h (FetchSettled g plain modifier) s = onFetchSettled h g plain modifier s"
| "handle h (PinClicked pid d) s = handlePinClicked h pid d s"
| "handle h (PinnedDisposed pid) s = s\<lparr>pinnedDatatips := set_delete pid (pinnedDatatips s)\<rparr>"
| "handle h PinnedHideDataTips s = hideDatatip h s"

text \<open>A trace pairs each event with the host's answers at its time; \<open>run\<close> plays it.\<close>

fun run :: "(host \<times> event) list \<Rightarrow> session \<Rightarrow> session" where
  "run [] s = s"
| "run ((h, e) # tr) s = run tr (handle h e s)"

fun isMouseMove :: "event \<Rightarrow> bool" where
  "isMouseMove (MouseMove e) = True"
| "isMouseMove e = False"

fun isPinnedHideDataTips :: "event \<Rightarrow> bool" where
  "isPinnedHideDataTips PinnedHideDataTips = True"
| "isPinnedHideDataTips e = False"

text \<open>
  The overlay of a session is mounted when the session holds a marker and React
  has rendered into the overlay element; it is unmounted when there is neither.
\<close>

definition overlayMounted :: "session \<Rightarrow> bool" where
  "overlayMounted s = (marker s \<noteq> None \<and> rendered (datatipElement s) \<noteq> None)"

definition overlayUnmounted :: "session \<Rightarrow> bool" where
  "overlayUnmounted s = (marker s = None \<and> rendered (datatipElement s) = None)"

subsection \<open>The manager: DatatipManager\<close>

record manager =
  editorManagers :: "nat \<rightharpoonup> session"
  datatipProviders :: "provider list"
  modifierDatatipProviders :: "provider list"

definition manager_createPinnedDataTip ::
  "manager \<Rightarrow> nat \<Rightarrow> datatip \<Rightarrow> nat \<Rightarrow> js_error + PinnedDatatip \<times> manager"
where
  "manager_createPinnedDataTip m pid d ed =
     (case editorManagers m ed of
        None \<Rightarrow>
          Inl (JSError
            ''Trying to create a pinned data tip on an editor that has no datatip manager'')
      | Some mgr \<Rightarrow>
          (let (pinnedDatatip, mgr') = createPinnedDataTip mgr pid d ed
           in Inr (pinnedDatatip, m\<lparr>editorManagers := (editorManagers m)(ed \<mapsto> mgr')\<rparr>)))"

subsection \<open>Concrete inputs\<close>

definition tipA :: datatip where
  "tipA = \<lparr>payload = ''A'',
           datatip_range = Some \<lparr>range_start = (0, 0), range_end = (0, 5)\<rparr>,
           pinnable = None\<rparr>"

definition tipB :: datatip where
  "tipB = \<lparr>payload = ''B'',
           datatip_range = Some \<lparr>range_start = (0, 0), range_end = (0, 3)\<rparr>,
           pinnable = None\<rparr>"

definition anyScope :: "string \<Rightarrow> bool" where
  "anyScope sc = True"

definition providerLow :: provider where
  "providerLow = \<lparr>providerName = Some ''low'', inclusionPriority = 1, validForScope = anyScope\<rparr>"

definition providerHigh :: provider where
  "providerHigh = \<lparr>providerName = Some ''high'', inclusionPriority = 2, validForScope = anyScope\<rparr>"

definition providerOff :: provider where
  "providerOff = \<lparr>providerName = Some ''off'', inclusionPriority = 0, validForScope = anyScope\<rparr>"

definition providerBroken :: provider where
  "providerBroken =
     \<lparr>providerName = Some ''broken'', inclusionPriority = 3, validForScope = anyScope\<rparr>"

text \<open>Each example provider is told apart by its priority.\<close>

definition invokeExample :: "provider \<Rightarrow> invocation" where
  "invokeExample p =
     (if inclusionPriority p = 3 then Throws ''boom''
      else if inclusionPriority p = 2 then Resolves (Some tipB)
      else Resolves (Some tipA))"

definition textExample :: textComponent where
  "textExample =
     \<lparr>screenPositionForMouseEvent = (\<lambda>e. (0, 2)),
      pixelPositionForMouseEvent = (\<lambda>e. \<lparr>pixel_top = clientY e, pixel_left = clientX e\<rparr>),
      pixelPositionForScreenPosition = (\<lambda>p. \<lparr>pixel_top = 0, pixel_left = 16\<rparr>)\<rparr>"

definition hostAt :: "rat \<Rightarrow> host" where
  "hostAt t =
     \<lparr>grammarScopeName = ''source.js'',
      component = Some textExample,
      defaultCharWidth = 8,
      bufferPositionForScreenPosition = (\<lambda>p. p),
      cursorBufferPosition = (0, 2),
      cursorScreenPosition = (0, 2),
      activeTextEditor = True,
      performanceNow = t,
      isHovering = (\<lambda>pid. False)\<rparr>"

definition moveExample :: mouse_event where
  "moveExample = \<lparr>clientX = 20, clientY = 4, eventModifiers = {}\<rparr>"

definition noConfig :: featureConfig where
  "noConfig key = JSUndefined"

definition topA :: datatipAndProvider where
  "topA = \<lparr>top_datatip = tipA, top_provider = providerLow\<rparr>"

text \<open>
  A hover that ends with the datatip shown: the pointer moves, the debounce
  timer fires, and the fetch settles with the datatip of \<open>low\<close>.
\<close>

definition hoverTrace :: "(host \<times> event) list" where
  "hoverTrace =
     [(hostAt 0, MouseMove moveExample),
      (hostAt 1000, StartFetchingTimer),
      (hostAt 1010, FetchSettled MouseBufferPosition (Some topA) None)]"

definition fetchingTrace :: "(host \<times> event) list" where
  "fetchingTrace =
     [(hostAt 0, MouseMove moveExample),
      (hostAt 1000, StartFetchingTimer)]"

text \<open>A host on which the pinned datatip 7 reports that the pointer is over it.\<close>

definition hostHovering :: "rat \<Rightarrow> host" where
  "hostHovering t = (hostAt t)\<lparr>isHovering := (\<lambda>pid. pid = 7)\<rparr>"

text \<open>The fetch of \<open>fetchingTrace\<close> settling, on a host where nothing is hovered.\<close>

definition settleA :: event where
  "settleA = FetchSettled MouseBufferPosition (Some topA) None"

text \<open>The editor loses focus while the fetch is in flight.\<close>

definition blurredWhileFetching :: session where
  "blurredWhileFetching = run (fetchingTrace @ [(hostAt 1005, Blur)]) (newSession 1 noConfig)"

text \<open>A pinned datatip made through the API, and the session the call leaves.\<close>

definition apiPinned :: "PinnedDatatip \<times> session" where
  "apiPinned = createPinnedDataTip (newSession 1 noConfig) 7 tipA 1"

text \<open>The shown datatip is hidden by a key press at time 2000.\<close>

definition hiddenAt2000 :: session where
  "hiddenAt2000 = run (hoverTrace @ [(hostAt 2000, KeyDown None)]) (newSession 1 noConfig)"

text \<open>A hidden session that has seen one mouse move.\<close>

definition movedOnce :: session where
  "movedOnce = handle (hostAt 0) (MouseMove moveExample) (newSession 1 noConfig)"

text \<open>A second hover, later in time, that ends with the datatip shown again.\<close>

definition secondHover :: "(host \<times> event) list" where
  "secondHover =
     [(hostAt 3000, MouseMove moveExample),
      (hostAt 4000, StartFetchingTimer),
      (hostAt 4010, settleA)]"

text \<open>
  The shown datatip is pinned (the pin click hides it), a second hover shows a
  datatip again, and the pinned datatip then calls its \<open>hideDataTips\<close> callback.
\<close>

definition pinnedCallbackTrace :: "(host \<times> event) list" where
  "pinnedCallbackTrace =
     hoverTrace @ [(hostAt 1500, PinClicked 7 tipA)] @ secondHover
       @ [(hostAt 5000, PinnedHideDataTips)]"

text \<open>The callback runs while the datatip is shown, and the editor then loses focus.\<close>

definition callbackThenBlur :: "(host \<times> event) list" where
  "callbackThenBlur =
     hoverTrace @ [(hostAt 1500, PinnedHideDataTips), (hostAt 2000, Blur)]"

definition managerExample :: manager where
  "managerExample =
     \<lparr>editorManagers = [1 \<mapsto> newSession 1 noConfig],
      datatipProviders = [providerLow],
      modifierDatatipProviders = []\<rparr>"

section \<open>The provider race\<close>

lemmas race_defs =
  getTopDatatipAndProvider_def filterProvidersByScopeName_def datatipPromise_def
  getProviderName_def

lemma filterProviders_empty_iff:
  "filterProvidersByScopeName ps sc = []
     \<longleftrightarrow> (\<forall>p \<in> set ps. \<not> (inclusionPriority p > 0 \<and> validForScope p sc))"
proof -
  have "filterProvidersByScopeName ps sc = []
          \<longleftrightarrow> length (filterProvidersByScopeName ps sc) = 0"
    by simp
  also have "\<dots> \<longleftrightarrow> filter (\<lambda>p. inclusionPriority p > 0 \<and> validForScope p sc) ps = []"
    by (simp add: filterProvidersByScopeName_def)
  also have "\<dots> \<longleftrightarrow> (\<forall>p \<in> set ps. \<not> (inclusionPriority p > 0 \<and> validForScope p sc))"
    by (simp add: filter_empty_conv)
  finally show ?thesis .
qed

text \<open>With no applicable provider the race answers null and invokes nobody.\<close>

lemma race_no_applicable:
  "filterProvidersByScopeName ps sc = [] \<Longrightarrow>
     getTopDatatipAndProvider ps sc invoke = (Fulfilled None, [])"
  by (simp add: getTopDatatipAndProvider_def)

text \<open>
  With an applicable provider the race awaits the promises of \<^emph>\<open>all\<close> registered
  providers, in registration order: the filtered and sorted list only decides
  whether the race runs.
\<close>

lemma race_over_all_providers:
  "filterProvidersByScopeName ps sc \<noteq> [] \<Longrightarrow>
     fst (getTopDatatipAndProvider ps sc invoke)
       = asyncFind (map (\<lambda>p. fst (datatipPromise invoke p)) ps)"
  by (simp add: getTopDatatipAndProvider_def Let_def comp_def)

lemma race_effects_all_providers:
  "filterProvidersByScopeName ps sc \<noteq> [] \<Longrightarrow>
     snd (getTopDatatipAndProvider ps sc invoke)
       = concat (map (\<lambda>p. snd (datatipPromise invoke p)) ps)"
  by (simp add: getTopDatatipAndProvider_def Let_def comp_def)

lemma asyncFind_all_null:
  "\<forall>q \<in> set qs. q = Fulfilled None \<Longrightarrow> asyncFind qs = Fulfilled None"
  by (induction qs rule: asyncFind.induct) simp_all

lemma asyncFind_skips_null:
  "asyncFind (xs @ Fulfilled None # ys) = asyncFind (xs @ ys)"
  by (induction xs rule: asyncFind.induct) simp_all

lemma datatipPromise_failure:
  assumes "invoke p = Throws e \<or> invoke p = Rejects e"
  shows "datatipPromise invoke p =
           (Fulfilled None,
            snd (getProviderName p)
              @ [TimingError (fst (getProviderName p) @ ''.datatip'') e,
                 LogDatatipError (fst (getProviderName p)) e])"
  using assms by (auto simp: datatipPromise_def split: prod.splits)

lemma datatipPromise_null:
  "invoke p = Resolves None \<Longrightarrow> fst (datatipPromise invoke p) = Fulfilled None"
  by (simp add: datatipPromise_def split: prod.splits)

text \<open>When every provider resolves null, throws or rejects, the race answers null.\<close>

lemma race_all_null_or_failed:
  assumes "\<forall>p \<in> set ps. invoke p = Resolves None \<or> (\<exists>e. invoke p = Throws e \<or> invoke p = Rejects e)"
  shows "fst (getTopDatatipAndProvider ps sc invoke) = Fulfilled None"
proof (cases "filterProvidersByScopeName ps sc = []")
  case True
  then show ?thesis by (simp add: race_no_applicable)
next
  case False
  have "\<forall>q \<in> set (map (\<lambda>p. fst (datatipPromise invoke p)) ps). q = Fulfilled None"
    using assms by (auto simp: datatipPromise_null datatipPromise_failure)
  then have "asyncFind (map (\<lambda>p. fst (datatipPromise invoke p)) ps) = Fulfilled None"
    by (rule asyncFind_all_null)
  with race_over_all_providers [OF False] show ?thesis
    by simp
qed

text \<open>
  A provider whose invocation fails is passed over, as long as another provider
  is applicable: the outcome is that of the race without it.
\<close>

lemma race_failure_passed_over:
  assumes fails: "invoke p = Throws e \<or> invoke p = Rejects e"
    and others: "filterProvidersByScopeName (xs @ ys) sc \<noteq> []"
  shows "fst (getTopDatatipAndProvider (xs @ p # ys) sc invoke)
           = fst (getTopDatatipAndProvider (xs @ ys) sc invoke)"
proof -
  have all: "filterProvidersByScopeName (xs @ p # ys) sc \<noteq> []"
    using others unfolding filterProviders_empty_iff by auto
  have "fst (datatipPromise invoke p) = Fulfilled None"
    using fails by (simp add: datatipPromise_failure)
  then have "asyncFind (map (\<lambda>p. fst (datatipPromise invoke p)) (xs @ p # ys))
               = asyncFind (map (\<lambda>p. fst (datatipPromise invoke p)) (xs @ ys))"
    by (simp add: asyncFind_skips_null)
  then show ?thesis
    by (simp only: race_over_all_providers [OF all] race_over_all_providers [OF others])
qed

text \<open>
  Claim C1, evaluated.  The claim has the race return the result of the first
  provider in descending priority order among the applicable ones.  Over the
  providers \<open>low\<close> (priority 1) and \<open>high\<close> (priority 2), registered in this
  order and both resolving to a datatip, the applicable providers in priority
  order are \<open>high\<close>, \<open>low\<close>, yet the race returns the datatip of \<open>low\<close>; over
  \<open>off\<close> (priority 0, not applicable) and \<open>high\<close> it returns the datatip of
  \<open>off\<close>.
\<close>

theorem race_ignores_priority_order:
  "filterProvidersByScopeName [providerLow, providerHigh] ''source.js''
     = [providerHigh, providerLow]
   \<and> fst (getTopDatatipAndProvider [providerLow, providerHigh] ''source.js'' invokeExample)
     = Fulfilled (Some \<lparr>top_datatip = tipA, top_provider = providerLow\<rparr>)
   \<and> filterProvidersByScopeName [providerOff, providerHigh] ''source.js'' = [providerHigh]
   \<and> fst (getTopDatatipAndProvider [providerOff, providerHigh] ''source.js'' invokeExample)
     = Fulfilled (Some \<lparr>top_datatip = tipA, top_provider = providerOff\<rparr>)"
  by (simp add: race_defs providerLow_def providerHigh_def providerOff_def anyScope_def
      invokeExample_def)

text \<open>
  Claim C6, evaluated.  The claim has the outcome of a race with a failing
  provider equal the outcome over the other providers.  \<open>broken\<close> (priority 3)
  throws and \<open>off\<close> (priority 0) resolves to a datatip: the race over both
  returns the datatip of \<open>off\<close>, the race over \<open>off\<close> alone returns null.  The
  failure itself is logged once, under the provider's name.
\<close>

theorem race_failure_changes_outcome:
  "invokeExample providerBroken = Throws ''boom''
   \<and> fst (getTopDatatipAndProvider [providerBroken, providerOff] ''source.js'' invokeExample)
     = Fulfilled (Some \<lparr>top_datatip = tipA, top_provider = providerOff\<rparr>)
   \<and> fst (getTopDatatipAndProvider [providerOff] ''source.js'' invokeExample) = Fulfilled None
   \<and> snd (getTopDatatipAndProvider [providerBroken, providerOff] ''source.js'' invokeExample)
     = [TimingError ''broken.datatip'' ''boom'', LogDatatipError ''broken'' ''boom'',
        TimingSuccess ''off.datatip'']"
  by (simp add: race_defs providerBroken_def providerOff_def anyScope_def invokeExample_def)


section \<open>Configured debounce delays\<close>

lemma ensurePositiveNumber_not_number:
  "typeof v \<noteq> ''number'' \<Longrightarrow> ensurePositiveNumber v d = d"
  by (simp add: ensurePositiveNumber_def)

lemma ensurePositiveNumber_negative:
  "negative_number v \<Longrightarrow> ensurePositiveNumber v d = d"
  by (induction v rule: negative_number.induct) (simp_all add: ensurePositiveNumber_def)

lemma ensurePositiveNumber_non_negative:
  "non_negative_number v \<Longrightarrow> ensurePositiveNumber v d = v"
  by (induction v rule: non_negative_number.induct) (simp_all add: ensurePositiveNumber_def)

text \<open>
  Claim C8.  A configured delay that is not a number, or is a negative number,
  is replaced by the default, and the default of both delays is 1000; a
  non-negative number is returned as it is, so both delays are the configured
  values.
\<close>

theorem ensurePositiveNumber_spec:
  "(typeof v \<noteq> ''number'' \<or> negative_number v \<longrightarrow>
      ensurePositiveNumber v d = d
      \<and> startFetchingDelay (cfg(''nuclide-datatip.datatipDebounceDelay'' := v))
          = JSNumber (Finite 1000)
      \<and> hideIfOutsideDelay (cfg(''nuclide-datatip.datatipInteractedWithDebounceDelay'' := v))
          = JSNumber (Finite 1000))
   \<and> (non_negative_number v \<longrightarrow>
      ensurePositiveNumber v d = v
      \<and> startFetchingDelay (cfg(''nuclide-datatip.datatipDebounceDelay'' := v)) = v
      \<and> hideIfOutsideDelay (cfg(''nuclide-datatip.datatipInteractedWithDebounceDelay'' := v)) = v)"
proof (intro conjI impI)
  assume bad: "typeof v \<noteq> ''number'' \<or> negative_number v"
  have dflt: "\<And>d'. ensurePositiveNumber v d' = d'"
    using bad ensurePositiveNumber_not_number ensurePositiveNumber_negative by blast
  show "ensurePositiveNumber v d = d" by (rule dflt)
  show "startFetchingDelay (cfg(''nuclide-datatip.datatipDebounceDelay'' := v))
          = JSNumber (Finite 1000)"
    by (simp add: startFetchingDelay_def dflt DEFAULT_DATATIP_DEBOUNCE_DELAY_def)
  show "hideIfOutsideDelay (cfg(''nuclide-datatip.datatipInteractedWithDebounceDelay'' := v))
          = JSNumber (Finite 1000)"
    by (simp add: hideIfOutsideDelay_def dflt DEFAULT_DATATIP_INTERACTED_DEBOUNCE_DELAY_def)
next
  assume ok: "non_negative_number v"
  have keep: "\<And>d'. ensurePositiveNumber v d' = v"
    using ok by (rule ensurePositiveNumber_non_negative)
  show "ensurePositiveNumber v d = v" by (rule keep)
  show "startFetchingDelay (cfg(''nuclide-datatip.datatipDebounceDelay'' := v)) = v"
    by (simp add: startFetchingDelay_def keep)
  show "hideIfOutsideDelay (cfg(''nuclide-datatip.datatipInteractedWithDebounceDelay'' := v)) = v"
    by (simp add: hideIfOutsideDelay_def keep)
qed

theorem ensurePositiveNumber_spec_witness:
  "ensurePositiveNumber (JSString ''fast'') (JSNumber (Finite 1000)) = JSNumber (Finite 1000)
   \<and> ensurePositiveNumber (JSNumber (Finite (-5))) (JSNumber (Finite 1000)) = JSNumber (Finite 1000)
   \<and> startFetchingDelay ((\<lambda>k. JSUndefined)(''nuclide-datatip.datatipDebounceDelay'' := JSNumber (Finite (-5))))
       = JSNumber (Finite 1000)
   \<and> ensurePositiveNumber (JSNumber (Finite 250)) (JSNumber (Finite 1000)) = JSNumber (Finite 250)
   \<and> hideIfOutsideDelay
       ((\<lambda>k. JSUndefined)(''nuclide-datatip.datatipInteractedWithDebounceDelay'' := JSNumber (Finite 250)))
       = JSNumber (Finite 250)"
  using ensurePositiveNumber_spec [of "JSString ''fast''" "JSNumber (Finite 1000)" "\<lambda>k. JSUndefined"]
    ensurePositiveNumber_spec [of "JSNumber (Finite (-5))" "JSNumber (Finite 1000)" "\<lambda>k. JSUndefined"]
    ensurePositiveNumber_spec [of "JSNumber (Finite 250)" "JSNumber (Finite 1000)" "\<lambda>k. JSUndefined"]
  by simp

section \<open>Double arithmetic\<close>

text \<open>\<open>floor_log2\<close> is the binary exponent of a positive rational.\<close>

lemma bit_length_bounds:
  "0 < n \<Longrightarrow> 2 ^ (bit_length n - 1) \<le> n \<and> n < 2 ^ bit_length n"
proof (induction n rule: bit_length.induct)
  case (1 n)
  show ?case
  proof (cases "n div 2 = 0")
    case True
    with "1.prems" have "n = 1" by (simp add: div_eq_0_iff)
    then show ?thesis by (simp add: bit_length.simps)
  next
    case False
    then have pos: "0 < n div 2" by simp
    from "1.IH" [OF _ pos] "1.prems"
    have ih: "2 ^ (bit_length (n div 2) - 1) \<le> n div 2" "n div 2 < 2 ^ bit_length (n div 2)"
      by simp_all
    have bl: "bit_length n = Suc (bit_length (n div 2))"
      using "1.prems" by (subst bit_length.simps) simp
    have nz: "bit_length (n div 2) \<noteq> 0"
      using pos by (subst bit_length.simps) simp
    then obtain k where k: "bit_length (n div 2) = Suc k" by (cases "bit_length (n div 2)") auto
    have "2 * 2 ^ k \<le> 2 * (n div 2)" using ih(1) by (simp add: k)
    also have "\<dots> \<le> n" by simp
    finally have lo: "2 ^ (bit_length n - 1) \<le> n" by (simp add: bl k)
    have "n < 2 * (n div 2) + 2" by arith
    also have "\<dots> \<le> 2 * 2 ^ bit_length (n div 2)" using ih(2) by simp
    finally have hi: "n < 2 ^ bit_length n" by (simp add: bl)
    from lo hi show ?thesis by simp
  qed
qed

lemma floor_log2_bounds:
  assumes "0 < q"
  shows "2 powi (floor_log2 q) \<le> q \<and> q < 2 powi (floor_log2 q + 1)"
proof (cases "1 \<le> q")
  case True
  define n where "n = nat \<lfloor>q\<rfloor>"
  define b where "b = bit_length n"
  have fl: "1 \<le> \<lfloor>q\<rfloor>" using True by (simp add: le_floor_iff)
  then have n: "0 < n" and nq: "of_nat n = (of_int \<lfloor>q\<rfloor> :: rat)"
    by (simp_all add: n_def)
  from bit_length_bounds [OF n]
  have lo: "2 ^ (b - 1) \<le> n" and hi: "n < 2 ^ b" by (simp_all add: b_def)
  have b0: "b \<noteq> 0" using hi n by (cases b) auto
  have e: "floor_log2 q = int (b - 1)"
    using True b0 by (simp add: floor_log2_def n_def b_def)
  have "(2::rat) ^ (b - 1) = of_nat (2 ^ (b - 1))" by simp
  also have "\<dots> \<le> of_nat n" using lo by (simp only: of_nat_le_iff)
  also have "\<dots> \<le> q" by (simp add: nq)
  finally have lower: "2 powi (floor_log2 q) \<le> q" by (simp add: e)
  have "q < of_int \<lfloor>q\<rfloor> + 1" by linarith
  also have "\<dots> = of_nat (Suc n)" by (simp add: nq [symmetric])
  also have "\<dots> \<le> (of_nat (2 ^ b) :: rat)"
    using hi by (simp only: of_nat_le_iff Suc_le_eq)
  also have "\<dots> = 2 ^ b" by simp
  finally have "q < 2 ^ b" .
  moreover have "int (b - 1) + 1 = int b" using b0 by simp
  ultimately have upper: "q < 2 powi (floor_log2 q + 1)" by (simp add: e)
  from lower upper show ?thesis ..
next
  case False
  then have q1: "q < 1" by simp
  define c where "c = \<lceil>1 / q\<rceil>"
  define n where "n = nat (c - 1)"
  define b where "b = bit_length n"
  have inv: "1 < 1 / q" using assms q1 by simp
  then have c2: "2 \<le> c" unfolding c_def by (simp add: le_ceiling_iff)
  then have n: "0 < n" and nc: "of_nat n = (of_int c :: rat) - 1"
    by (simp_all add: n_def)
  from bit_length_bounds [OF n]
  have lo: "2 ^ (b - 1) \<le> n" and hi: "n < 2 ^ b" by (simp_all add: b_def)
  have e: "floor_log2 q = - int b"
    using False by (simp add: floor_log2_def c_def n_def b_def)
  have "1 / q \<le> of_int c" unfolding c_def by (rule le_of_int_ceiling)
  also have "\<dots> = of_nat (Suc n)" using nc by simp
  also have "\<dots> \<le> (of_nat (2 ^ b) :: rat)"
    using hi by (simp only: of_nat_le_iff Suc_le_eq)
  also have "\<dots> = 2 ^ b" by simp
  finally have "1 / q \<le> 2 ^ b" .
  then have "1 \<le> 2 ^ b * q" using assms by (simp add: divide_le_eq)
  then have "1 / 2 ^ b \<le> q" by (simp add: divide_le_eq mult.commute)
  then have lower: "2 powi (floor_log2 q) \<le> q"
    by (simp add: e power_int_minus divide_inverse)
  have "(2::rat) ^ (b - 1) = of_nat (2 ^ (b - 1))" by simp
  also have "\<dots> \<le> of_nat n" using lo by (simp only: of_nat_le_iff)
  also have "\<dots> = of_int c - 1" by (rule nc)
  also have "\<dots> < 1 / q" unfolding c_def by linarith
  finally have "2 ^ (b - 1) * q < 1" using assms by (simp add: less_divide_eq)
  then have up: "q < 1 / 2 ^ (b - 1)" by (simp add: less_divide_eq mult.commute)
  have b0: "b \<noteq> 0" using hi n by (cases b) auto
  then have "- int b + 1 = - int (b - 1)" by simp
  then have "2 powi (floor_log2 q + 1) = (2::rat) powi (- int (b - 1))" by (simp only: e)
  also have "\<dots> = 1 / 2 ^ (b - 1)" by (simp add: power_int_minus divide_inverse)
  finally have upper: "q < 2 powi (floor_log2 q + 1)" using up by simp
  from lower upper show ?thesis ..
qed

lemma floor_log2_le: "0 < q \<Longrightarrow> 2 powi (floor_log2 q) \<le> q"
  by (simp add: floor_log2_bounds)

lemma round_half_even_le:
  assumes "m \<le> of_int M"
  shows "round_half_even m \<le> M"
proof -
  have fl: "\<lfloor>m\<rfloor> \<le> M" using assms by (simp add: floor_le_iff)
  show ?thesis
  proof (cases "m = of_int \<lfloor>m\<rfloor>")
    case True
    then have "m - of_int \<lfloor>m\<rfloor> = 0" by simp
    then show ?thesis using fl by (simp add: round_half_even_def Let_def)
  next
    case False
    then have "of_int \<lfloor>m\<rfloor> < m" using of_int_floor_le [of m] by linarith
    then have "of_int \<lfloor>m\<rfloor> < (of_int M :: rat)" using assms by simp
    then have "\<lfloor>m\<rfloor> < M" by (simp only: of_int_less_iff)
    then show ?thesis by (simp add: round_half_even_def Let_def)
  qed
qed

lemma round_half_even_nonneg: "0 \<le> m \<Longrightarrow> 0 \<le> round_half_even m"
  by (simp add: round_half_even_def Let_def)

lemma round_double_unfold:
  assumes "x \<noteq> 0"
    and "ulp = 2 powi (max (floor_log2 \<bar>x\<bar>) (- 1022) - 52)"
    and "y = of_int (round_half_even (\<bar>x\<bar> / ulp)) * ulp"
  shows "round_double x =
           (if 2 powi 1024 \<le> y then (if x < 0 then NegInfinity else PosInfinity)
            else Finite (if x < 0 then - y else y))"
  unfolding assms(2,3) round_double_def Let_def using assms(1) by (simp only: if_False)

lemma round_double_le_100:
  assumes "x \<le> 100"
  shows "\<not> number_less (Finite 100) (round_double x)"
proof (cases "x = 0")
  case True
  then show ?thesis by (simp add: round_double_def)
next
  case False
  define ulp :: rat where "ulp = 2 powi (max (floor_log2 \<bar>x\<bar>) (- 1022) - 52)"
  define y :: rat where "y = of_int (round_half_even (\<bar>x\<bar> / ulp)) * ulp"
  note unfold = round_double_unfold [OF False ulp_def y_def]
  have ulp: "0 < ulp" by (simp add: ulp_def)
  have "0 \<le> round_half_even (\<bar>x\<bar> / ulp)"
    using ulp by (intro round_half_even_nonneg) simp
  then have y0: "0 \<le> y" using ulp by (simp add: y_def)
  show ?thesis
  proof (cases "x < 0")
    case True
    then show ?thesis using y0 by (simp add: unfold)
  next
    case pos: False
    with False have x: "0 < x" by simp
    have "2 powi (floor_log2 x) \<le> x" using x by (rule floor_log2_le)
    also have "x < 2 powi 7" using assms by simp
    finally have "(2::rat) powi (floor_log2 x) < 2 powi 7" .
    then have "floor_log2 x < 7"
      by (rule power_int_le_imp_less_exp [rotated]) simp_all
    then have e: "max (floor_log2 \<bar>x\<bar>) (- 1022) \<le> 6" using x by simp
    define M :: int where "M = 100 * 2 ^ nat (52 - max (floor_log2 \<bar>x\<bar>) (- 1022))"
    have M: "of_int M * ulp = 100"
    proof -
      have "ulp = inverse (2 powi (52 - max (floor_log2 \<bar>x\<bar>) (- 1022)))"
        unfolding ulp_def by (simp add: power_int_minus [symmetric])
      also have "(2::rat) powi (52 - max (floor_log2 \<bar>x\<bar>) (- 1022))
                   = 2 ^ nat (52 - max (floor_log2 \<bar>x\<bar>) (- 1022))"
        using e by (simp add: power_int_def)
      finally show ?thesis by (simp add: M_def)
    qed
    have "\<bar>x\<bar> / ulp \<le> of_int M"
    proof -
      have "\<bar>x\<bar> \<le> of_int M * ulp" using assms x by (simp add: M)
      then show ?thesis using ulp by (simp add: divide_le_eq)
    qed
    then have "round_half_even (\<bar>x\<bar> / ulp) \<le> M" by (rule round_half_even_le)
    then have "y \<le> of_int M * ulp"
      using ulp by (simp add: y_def)
    then have y: "y \<le> 100" by (simp add: M)
    have "(100::rat) < 2 powi 1024" by simp
    with y have "\<not> 2 powi 1024 \<le> y" by linarith
    then show ?thesis
      using pos y by (simp add: unfold del: power_int_numeral)
  qed
qed

text \<open>Differences that the example traces compute; each is exact.\<close>

lemma round_double_4: "round_double 4 = Finite 4"
  by (simp add: round_double_def floor_log2_def round_half_even_def bit_length.simps Let_def)

lemma round_double_50: "round_double 50 = Finite 50"
  by (simp add: round_double_def floor_log2_def round_half_even_def bit_length.simps Let_def)

lemma round_double_200: "round_double 200 = Finite 200"
  by (simp add: round_double_def floor_log2_def round_half_even_def bit_length.simps Let_def)

text \<open>
  A difference that is not exact: \<open>100 + 2 ^ -46\<close> minus \<open>2 ^ -47\<close> lies halfway
  between two doubles and is rounded to 100.
\<close>

lemma flooround_half_even_tie: "\<lfloor>100 + 1 / 2 ^ 47 :: rat\<rfloor> = 100"
  by (simp add: floor_unique)

lemma floor_log2_tie: "floor_log2 (100 + 1 / 2 ^ 47) = 6"
  unfolding floor_log2_def flooround_half_even_tie by (simp add: bit_length.simps)

lemma round_half_even_tie: "round_half_even (14073748835532801 / 2) = 7036874417766400"
proof -
  have fl: "\<lfloor>14073748835532801 / 2 :: rat\<rfloor> = 7036874417766400"
    by (simp add: floor_unique)
  show ?thesis
    unfolding round_half_even_def Let_def fl by simp
qed

lemma round_double_tie: "round_double ((100 + 1 / 2 ^ 46) - 1 / 2 ^ 47) = Finite 100"
proof -
  have x: "(100 + 1 / 2 ^ 46) - 1 / 2 ^ 47 = (100 + 1 / 2 ^ 47 :: rat)"
    by simp
  have ne: "(100 + 1 / 2 ^ 47 :: rat) \<noteq> 0" by simp
  have ab: "\<bar>100 + 1 / 2 ^ 47 :: rat\<bar> = 100 + 1 / 2 ^ 47" by simp
  have ulp: "(2::rat) powi (max (floor_log2 \<bar>100 + 1 / 2 ^ 47\<bar>) (- 1022) - 52) = 2 powi (- 46)"
    unfolding ab floor_log2_tie by simp
  show ?thesis
    unfolding x
    by (subst round_double_unfold [OF ne ulp [symmetric] refl]) (simp add: ab round_half_even_tie)
qed

section \<open>The session\<close>

lemmas handler_defs = onFocus_def onBlur_def onMouseMove_def
  onMouseLeave_def onMouseDown_def onKeyDown_def onKeyUp_def onWheel_def onScrollTop_def
  onStartFetchingTimer_def onHideIfOutsideTimer_def onFetchSettled_def handlePinClicked_def
  toggleDatatip_def hideIfOutside_def hideIfOutsideImmediate_def hideOrCancel_def
  startFetching_resume_def startFetching_def fetchAndRender_begin_def
  fetchInResponseToKeyPress_def setState_def hideDatatip_def mountDatatipWithMarker_def

lemmas evaluation_defs = newSession_def fetchAndRender_result_def isHoveringOverPinnedTip_def
  getPosition_def getBufferPosition_def blacklisted_def callDebounced_def debounce_def
  set_add_def set_delete_def containsPoint_def point_le_def getModifierKeysFromMouseEvent_def
  PinnableDatatip_def getProviderName_def startFetchingDelay_def hideIfOutsideDelay_def
  ensurePositiveNumber_def DEFAULT_DATATIP_DEBOUNCE_DELAY_def
  DEFAULT_DATATIP_INTERACTED_DEBOUNCE_DELAY_def CUMULATIVE_WHEELX_THRESHOLD_def
  round_double_4 round_double_50 round_double_200

lemmas example_defs = hostAt_def textExample_def moveExample_def topA_def tipA_def
  noConfig_def providerLow_def hoverTrace_def fetchingTrace_def settleA_def

subsection \<open>Overlay and state\<close>

text \<open>
  Four facts about single steps.  The overlay is mounted and unmounted as a
  whole.  A hidden session has no overlay.  A session that shows a datatip has
  one; this is kept by every event but the \<open>hideDataTips\<close> callback of a pinned
  datatip, which calls \<open>_hideDatatip\<close> and leaves the state as it is.  A step
  that ends in FETCHING never mounts: it leaves the overlay as it was, or
  unmounts it.
\<close>

lemma overlay_whole_step:
  "overlayMounted s \<or> overlayUnmounted s \<Longrightarrow>
     overlayMounted (handle h e s) \<or> overlayUnmounted (handle h e s)"
  by (cases e)
    (auto simp: handler_defs overlayMounted_def overlayUnmounted_def Let_def
      split: if_splits option.splits sum.splits)

lemma hidden_unmounted_step:
  "(datatipState s = HIDDEN \<longrightarrow> overlayUnmounted s) \<Longrightarrow>
     datatipState (handle h e s) = HIDDEN \<Longrightarrow> overlayUnmounted (handle h e s)"
  by (cases e)
    (auto simp: handler_defs overlayUnmounted_def Let_def split: if_splits option.splits sum.splits)

lemma visible_mounted_step:
  "\<not> isPinnedHideDataTips e \<Longrightarrow> (datatipState s = VISIBLE \<longrightarrow> overlayMounted s) \<Longrightarrow>
     datatipState (handle h e s) = VISIBLE \<Longrightarrow> overlayMounted (handle h e s)"
  by (cases e)
    (auto simp: handler_defs overlayMounted_def Let_def split: if_splits option.splits sum.splits)

lemma fetching_step_never_mounts:
  "datatipState (handle h e s) = FETCHING \<Longrightarrow>
     (marker (handle h e s) = marker s \<and> datatipElement (handle h e s) = datatipElement s)
     \<or> overlayUnmounted (handle h e s)"
  by (cases e)
    (auto simp: handler_defs overlayUnmounted_def Let_def split: if_splits option.splits sum.splits)

lemma entering_hidden_unmounts:
  "datatipState s \<noteq> HIDDEN \<Longrightarrow> datatipState (handle h e s) = HIDDEN \<Longrightarrow>
     overlayUnmounted (handle h e s)"
  by (cases e)
    (auto simp: handler_defs overlayUnmounted_def Let_def split: if_splits option.splits sum.splits)

lemma entering_visible_mounts:
  "datatipState s \<noteq> VISIBLE \<Longrightarrow> datatipState (handle h e s) = VISIBLE \<Longrightarrow>
     overlayMounted (handle h e s)"
  by (cases e)
    (auto simp: handler_defs overlayMounted_def Let_def split: if_splits option.splits sum.splits)

lemma run_append: "run (tr1 @ tr2) s = run tr2 (run tr1 s)"
  by (induction tr1 arbitrary: s) auto

lemma run_snoc: "run (tr @ [(h, e)]) s = handle h e (run tr s)"
  by (simp add: run_append)

lemma overlay_whole_run:
  "overlayMounted s \<or> overlayUnmounted s \<Longrightarrow>
     overlayMounted (run tr s) \<or> overlayUnmounted (run tr s)"
proof (induction tr arbitrary: s)
  case Nil
  then show ?case by simp
next
  case (Cons x tr)
  obtain h e where x: "x = (h, e)" by (cases x)
  show ?case
    using Cons.IH [OF overlay_whole_step [OF Cons.prems]] by (simp add: x)
qed

lemma hidden_unmounted_run:
  "(datatipState s = HIDDEN \<longrightarrow> overlayUnmounted s) \<Longrightarrow>
     datatipState (run tr s) = HIDDEN \<Longrightarrow> overlayUnmounted (run tr s)"
proof (induction tr arbitrary: s)
  case Nil
  then show ?case by simp
next
  case (Cons x tr)
  obtain h e where x: "x = (h, e)" by (cases x)
  have "datatipState (handle h e s) = HIDDEN \<longrightarrow> overlayUnmounted (handle h e s)"
    using Cons.prems(1) by (blast intro: hidden_unmounted_step)
  then show ?case
    using Cons.IH [of "handle h e s"] Cons.prems(2) by (simp add: x)
qed

lemma visible_mounted_run:
  "\<forall>x \<in> set tr. \<not> isPinnedHideDataTips (snd x) \<Longrightarrow>
     (datatipState s = VISIBLE \<longrightarrow> overlayMounted s) \<Longrightarrow>
     datatipState (run tr s) = VISIBLE \<Longrightarrow> overlayMounted (run tr s)"
proof (induction tr arbitrary: s)
  case Nil
  then show ?case by simp
next
  case (Cons x tr)
  obtain h e where x: "x = (h, e)" by (cases x)
  have e: "\<not> isPinnedHideDataTips e" using Cons.prems(1) by (simp add: x)
  have "datatipState (handle h e s) = VISIBLE \<longrightarrow> overlayMounted (handle h e s)"
    using e Cons.prems(2) by (blast intro: visible_mounted_step)
  then show ?case
    using Cons.IH [of "handle h e s"] Cons.prems(1,3) by (simp add: x)
qed

lemma newSession_unmounted: "overlayUnmounted (newSession ed cfg)"
  by (simp add: overlayUnmounted_def newSession_def)

lemma newSession_hidden: "datatipState (newSession ed cfg) = HIDDEN"
  by (simp add: newSession_def)

text \<open>
  An overlay that is mounted while the session is fetching was mounted when
  the session last showed a datatip, and has been carried over unchanged.
\<close>

lemma fetching_overlay_carried_over:
  "datatipState (run tr (newSession ed cfg)) = FETCHING \<Longrightarrow>
   overlayMounted (run tr (newSession ed cfg)) \<Longrightarrow>
   \<exists>ta tb. tr = ta @ tb \<and> tb \<noteq> []
     \<and> datatipState (run ta (newSession ed cfg)) = VISIBLE
     \<and> marker (run ta (newSession ed cfg)) = marker (run tr (newSession ed cfg))
     \<and> datatipElement (run ta (newSession ed cfg))
         = datatipElement (run tr (newSession ed cfg))"
proof (induction tr rule: rev_induct)
  case Nil
  then show ?case by (simp add: newSession_hidden)
next
  case (snoc x tr)
  obtain h e where x: "x = (h, e)" by (cases x)
  define s where "s = run tr (newSession ed cfg)"
  have s': "run (tr @ [x]) (newSession ed cfg) = handle h e s"
    by (simp add: x s_def run_snoc)
  have fetching: "datatipState (handle h e s) = FETCHING"
    and mounted: "overlayMounted (handle h e s)"
    using snoc.prems by (simp_all add: s')
  have "\<not> overlayUnmounted (handle h e s)"
    using mounted by (simp add: overlayMounted_def overlayUnmounted_def)
  with fetching_step_never_mounts [OF fetching]
  have same: "marker (handle h e s) = marker s"
    "datatipElement (handle h e s) = datatipElement s"
    by blast+
  then have mounted_s: "overlayMounted s"
    using mounted by (simp add: overlayMounted_def)
  then have "\<not> overlayUnmounted s"
    by (simp add: overlayMounted_def overlayUnmounted_def)
  then have not_hidden: "datatipState s \<noteq> HIDDEN"
    unfolding s_def using hidden_unmounted_run [of "newSession ed cfg" tr]
    by (auto simp: newSession_unmounted)
  show ?case
  proof (cases "datatipState s = VISIBLE")
    case True
    then show ?thesis
      unfolding s' using same by (intro exI [of _ tr] exI [of _ "[x]"]) (simp add: s_def)
  next
    case False
    with not_hidden have "datatipState s = FETCHING" by (cases "datatipState s") auto
    from snoc.IH [OF this [unfolded s_def] mounted_s [unfolded s_def]]
    obtain ta tb where split: "tr = ta @ tb"
      and vis: "datatipState (run ta (newSession ed cfg)) = VISIBLE"
      and mk: "marker (run ta (newSession ed cfg)) = marker s"
      and el: "datatipElement (run ta (newSession ed cfg)) = datatipElement s"
      unfolding s_def by blast
    show ?thesis
      unfolding s' using split vis mk el same
      by (intro exI [of _ ta] exI [of _ "tb @ [x]"]) simp
  qed
qed

text \<open>
  Claim C2, amended.  In every state \<open>s\<close> that a session reaches from its
  construction by a trace \<open>tr\<close>:
  \<^item> the overlay (marker and rendered element) is mounted or unmounted as a whole;
  \<^item> when the state is HIDDEN, no overlay is mounted;
  \<^item> when the state is FETCHING and an overlay is mounted, it is the overlay of
    an earlier VISIBLE state of the trace, carried over unchanged; and a step
    that ends in FETCHING with an overlay mounted found that overlay mounted;
  \<^item> when the state is VISIBLE, an overlay is mounted, provided no pinned datatip
    has called its \<open>hideDataTips\<close> callback since the state was last not VISIBLE
    (\<open>pre\<close> is the trace up to that point and \<open>post\<close> the rest);
  \<^item> every step that enters HIDDEN leaves the overlay unmounted, and every step
    that enters VISIBLE leaves one mounted.
\<close>

theorem overlay_follows_state:
  assumes "s = run tr (newSession ed cfg)"
  shows "(overlayMounted s \<or> overlayUnmounted s)
    \<and> (datatipState s = HIDDEN \<longrightarrow> overlayUnmounted s)
    \<and> (datatipState s = FETCHING \<and> overlayMounted s \<longrightarrow>
         (\<exists>ta tb. tr = ta @ tb \<and> tb \<noteq> []
            \<and> datatipState (run ta (newSession ed cfg)) = VISIBLE
            \<and> marker (run ta (newSession ed cfg)) = marker s
            \<and> datatipElement (run ta (newSession ed cfg)) = datatipElement s))
    \<and> (datatipState (handle h e s) = FETCHING \<and> overlayMounted (handle h e s) \<longrightarrow>
         overlayMounted s \<and> marker (handle h e s) = marker s
         \<and> datatipElement (handle h e s) = datatipElement s)
    \<and> (tr = pre @ post \<and> datatipState (run pre (newSession ed cfg)) \<noteq> VISIBLE
         \<and> (\<forall>x \<in> set post. \<not> isPinnedHideDataTips (snd x)) \<and> datatipState s = VISIBLE
         \<longrightarrow> overlayMounted s)
    \<and> (datatipState s \<noteq> HIDDEN \<and> datatipState (handle h e s) = HIDDEN
         \<longrightarrow> overlayUnmounted (handle h e s))
    \<and> (datatipState s \<noteq> VISIBLE \<and> datatipState (handle h e s) = VISIBLE
         \<longrightarrow> overlayMounted (handle h e s))"
proof (intro conjI impI)
  show "overlayMounted s \<or> overlayUnmounted s"
    unfolding assms by (rule overlay_whole_run) (simp add: newSession_unmounted)
next
  assume "datatipState s = HIDDEN"
  then show "overlayUnmounted s"
    unfolding assms by (rule hidden_unmounted_run [rotated]) (simp add: newSession_unmounted)
next
  assume "datatipState s = FETCHING \<and> overlayMounted s"
  then show "\<exists>ta tb. tr = ta @ tb \<and> tb \<noteq> []
            \<and> datatipState (run ta (newSession ed cfg)) = VISIBLE
            \<and> marker (run ta (newSession ed cfg)) = marker s
            \<and> datatipElement (run ta (newSession ed cfg)) = datatipElement s"
    unfolding assms by (blast intro: fetching_overlay_carried_over)
next
  assume a: "datatipState (handle h e s) = FETCHING \<and> overlayMounted (handle h e s)"
  then have "\<not> overlayUnmounted (handle h e s)"
    by (simp add: overlayMounted_def overlayUnmounted_def)
  with fetching_step_never_mounts [of h e s] a
  have same: "marker (handle h e s) = marker s"
    "datatipElement (handle h e s) = datatipElement s"
    by blast+
  show "overlayMounted s"
    using a same by (simp add: overlayMounted_def)
  show "marker (handle h e s) = marker s" by (rule same)
  show "datatipElement (handle h e s) = datatipElement s" by (rule same)
next
  assume a: "tr = pre @ post \<and> datatipState (run pre (newSession ed cfg)) \<noteq> VISIBLE
         \<and> (\<forall>x \<in> set post. \<not> isPinnedHideDataTips (snd x)) \<and> datatipState s = VISIBLE"
  then have s: "s = run post (run pre (newSession ed cfg))"
    by (simp add: assms run_append)
  show "overlayMounted s"
    unfolding s
  proof (rule visible_mounted_run)
    show "\<forall>x \<in> set post. \<not> isPinnedHideDataTips (snd x)" using a by blast
    show "datatipState (run pre (newSession ed cfg)) = VISIBLE
            \<longrightarrow> overlayMounted (run pre (newSession ed cfg))"
      using a by blast
    show "datatipState (run post (run pre (newSession ed cfg))) = VISIBLE"
      using a s by simp
  qed
next
  assume "datatipState s \<noteq> HIDDEN \<and> datatipState (handle h e s) = HIDDEN"
  then show "overlayUnmounted (handle h e s)"
    by (blast intro: entering_hidden_unmounts)
next
  assume "datatipState s \<noteq> VISIBLE \<and> datatipState (handle h e s) = VISIBLE"
  then show "overlayMounted (handle h e s)"
    by (blast intro: entering_visible_mounts)
qed

lemmas run_defs = handler_defs evaluation_defs example_defs Let_def

text \<open>
  The hover of \<open>hoverTrace\<close> enters VISIBLE with the overlay mounted; a modifier
  key then moves to FETCHING with that same overlay; a blur enters HIDDEN with
  the overlay unmounted; and after a \<open>hideDataTips\<close> callback and a blur, a
  second hover shows a datatip with the overlay mounted.
\<close>

theorem overlay_follows_state_witness:
  "datatipState (run (hoverTrace @ [(hostAt 2000, Blur)]) (newSession 1 noConfig)) = HIDDEN
   \<and> overlayUnmounted (run (hoverTrace @ [(hostAt 2000, Blur)]) (newSession 1 noConfig))
   \<and> datatipState (run hoverTrace (newSession 1 noConfig)) = VISIBLE
   \<and> overlayMounted (run hoverTrace (newSession 1 noConfig))
   \<and> datatipState (handle (hostAt 2000) (KeyDown (Some ALT))
        (run hoverTrace (newSession 1 noConfig))) = FETCHING
   \<and> overlayMounted (handle (hostAt 2000) (KeyDown (Some ALT))
        (run hoverTrace (newSession 1 noConfig)))
   \<and> marker (handle (hostAt 2000) (KeyDown (Some ALT)) (run hoverTrace (newSession 1 noConfig)))
       = marker (run hoverTrace (newSession 1 noConfig))
   \<and> datatipState (run callbackThenBlur (newSession 1 noConfig)) = HIDDEN
   \<and> datatipState (run (callbackThenBlur @ secondHover) (newSession 1 noConfig)) = VISIBLE
   \<and> overlayMounted (run (callbackThenBlur @ secondHover) (newSession 1 noConfig))
   \<and> datatipState (handle (hostAt 2000) Blur (run hoverTrace (newSession 1 noConfig))) = HIDDEN
   \<and> overlayUnmounted (handle (hostAt 2000) Blur (run hoverTrace (newSession 1 noConfig)))
   \<and> datatipState (run fetchingTrace (newSession 1 noConfig)) = FETCHING
   \<and> overlayUnmounted (run fetchingTrace (newSession 1 noConfig))
   \<and> datatipState (handle (hostAt 1010) settleA (run fetchingTrace (newSession 1 noConfig)))
       = VISIBLE
   \<and> overlayMounted (handle (hostAt 1010) settleA (run fetchingTrace (newSession 1 noConfig)))"
  using
    overlay_follows_state [where tr = "hoverTrace @ [(hostAt 2000, Blur)]" and ed = 1
      and cfg = noConfig and h = "hostAt 0" and e = Focus and pre = "[]"
      and post = "hoverTrace @ [(hostAt 2000, Blur)]", OF refl]
    overlay_follows_state [where tr = hoverTrace and ed = 1 and cfg = noConfig
      and h = "hostAt 2000" and e = "KeyDown (Some ALT)" and pre = "[]" and post = hoverTrace,
      OF refl]
    overlay_follows_state [where tr = "callbackThenBlur @ secondHover" and ed = 1
      and cfg = noConfig and h = "hostAt 2000" and e = Blur and pre = callbackThenBlur
      and post = secondHover, OF refl]
    overlay_follows_state [where tr = hoverTrace and ed = 1 and cfg = noConfig
      and h = "hostAt 2000" and e = Blur and pre = "[]" and post = hoverTrace, OF refl]
    overlay_follows_state [where tr = fetchingTrace and ed = 1 and cfg = noConfig
      and h = "hostAt 1010" and e = settleA and pre = "[]" and post = fetchingTrace, OF refl]
  by (simp add: run_defs secondHover_def callbackThenBlur_def overlayMounted_def
      overlayUnmounted_def)

text \<open>
  Claim C2 as stated fails in both directions.  With the datatip shown,
  pressing a modifier key calls \<open>_fetchInResponseToKeyPress\<close>, which sets the
  state to FETCHING and leaves the overlay mounted until the new result
  replaces it.  And with a datatip shown beside a pinned one, the
  \<open>hideDataTips\<close> callback of the pinned datatip calls \<open>_hideDatatip\<close>, which
  unmounts the overlay and leaves the state VISIBLE.
\<close>

theorem overlay_while_fetching:
  "datatipState (run (hoverTrace @ [(hostAt 2000, KeyDown (Some ALT))]) (newSession 1 noConfig))
     = FETCHING
   \<and> overlayMounted
       (run (hoverTrace @ [(hostAt 2000, KeyDown (Some ALT))]) (newSession 1 noConfig))
   \<and> pinnedDatatips (run pinnedCallbackTrace (newSession 1 noConfig)) = [7]
   \<and> datatipState (run pinnedCallbackTrace (newSession 1 noConfig)) = VISIBLE
   \<and> overlayUnmounted (run pinnedCallbackTrace (newSession 1 noConfig))"
  by (simp add: run_defs pinnedCallbackTrace_def secondHover_def overlayMounted_def
      overlayUnmounted_def)

text \<open>
  Claim C3, evaluated.  The claim has a result that arrives when the state is
  no longer FETCHING discarded.  The pointer moves, the debounce timer starts
  the fetch, and the editor loses focus, which hides the session while the
  fetch is in flight.  When the fetch settles, \<open>_startFetching\<close> sets the state
  to HIDDEN once more and goes on, no \<open>return\<close> following as in the checks
  after it: the pointer's position is still inside the returned range, so the
  late result is mounted and the state becomes VISIBLE.
\<close>

theorem superseded_fetch_is_mounted:
  "datatipState (run fetchingTrace (newSession 1 noConfig)) = FETCHING
   \<and> datatipState blurredWhileFetching = HIDDEN
   \<and> inflight blurredWhileFetching = [MouseBufferPosition]
   \<and> datatipState (handle (hostAt 1010) settleA blurredWhileFetching) = VISIBLE
   \<and> overlayMounted (handle (hostAt 1010) settleA blurredWhileFetching)"
  by (simp add: run_defs blurredWhileFetching_def overlayMounted_def)

text \<open>
  Claim C4, evaluated.  The claim has a hovered pinned datatip keep the hover
  datatip from becoming VISIBLE, also when the pinned datatip was made by
  \<open>createPinnedDataTip\<close>.  That method never adds the new object to
  \<open>_pinnedDatatips\<close> (its \<open>onDispose\<close> callback deletes it from there all the
  same), so \<open>_isHoveringOverPinnedTip\<close> does not ask it: with the pinned
  datatip 7 made through the API and hovered when the fetch settles, the
  datatip is mounted and the state is VISIBLE.
\<close>

theorem api_pinned_tip_not_consulted:
  "pinned_id (fst apiPinned) = 7
   \<and> isHovering (hostHovering 1010) (pinned_id (fst apiPinned))
   \<and> pinnedDatatips (snd apiPinned) = []
   \<and> datatipState (run (fetchingTrace @ [(hostHovering 1010, settleA)]) (snd apiPinned)) = VISIBLE
   \<and> overlayMounted (run (fetchingTrace @ [(hostHovering 1010, settleA)]) (snd apiPinned))"
  by (simp add: run_defs apiPinned_def hostHovering_def createPinnedDataTip_def overlayMounted_def)

text \<open>
  Claim C5 as stated fails: the datatip is hidden at time 2000 by the key
  press, and the toggle command arriving as a keydown at time 2050 changes
  nothing; no fetch is started.
\<close>

theorem toggle_keydown_50ms_after_hide:
  "lastHiddenTime hiddenAt2000 = 2000
   \<and> datatipState hiddenAt2000 = HIDDEN
   \<and> performanceNow (hostAt 2050) - lastHiddenTime hiddenAt2000 = 50
   \<and> handle (hostAt 2050) (Toggle (Some ''keydown'')) hiddenAt2000 = hiddenAt2000
   \<and> inflight (handle (hostAt 2050) (Toggle (Some ''keydown'')) hiddenAt2000) = []"
  by (simp add: run_defs hiddenAt2000_def)

text \<open>
  Claim C7 as stated fails: on a hidden session that has seen a mouse move,
  \<open>_hideOrCancel\<close> records the pointer's position as blacklisted, and the
  difference shows: the fetch that would have shown the datatip is suppressed.
\<close>

theorem hidden_hideOrCancel_changes_session:
  "datatipState movedOnce = HIDDEN
   \<and> hideOrCancel (hostAt 10) movedOnce \<noteq> movedOnce
   \<and> blacklistedPosition movedOnce = None
   \<and> blacklistedPosition (hideOrCancel (hostAt 10) movedOnce) = Some (0, 2)
   \<and> datatipState (run [(hostAt 1000, StartFetchingTimer), (hostAt 1010, settleA)] movedOnce)
       = VISIBLE
   \<and> datatipState (run [(hostAt 1000, StartFetchingTimer), (hostAt 1010, settleA)]
        (hideOrCancel (hostAt 10) movedOnce)) = HIDDEN"
  by (simp add: run_defs movedOnce_def)


subsection \<open>Late results and pinned datatips\<close>

text \<open>
  What holds of a late result: it is discarded when the current position has
  left the returned range, and when a pinned datatip of the set
  \<open>_pinnedDatatips\<close> is hovered; a visible datatip is hidden on revalidation
  when such a pinned datatip is hovered and the pointer is not inside the
  datatip itself.  Pin clicks add to the set; \<open>createPinnedDataTip\<close> does not.
\<close>

lemma resume_outside_range_hidden:
  assumes "getPosition h s g = Some p" and "fetched_range d = Some r"
    and "\<not> containsPoint r p"
  shows "datatipState (startFetching_resume h g (Some d) s) = HIDDEN"
  using assms
  by (cases g)
    (auto simp: startFetching_resume_def setState_def hideDatatip_def getPosition_def Let_def
      split: if_splits option.splits)

lemma resume_hovering_hidden:
  assumes "pid \<in> set (pinnedDatatips s)" and "isHovering h pid"
  shows "datatipState (startFetching_resume h g fetchedData s) = HIDDEN"
proof -
  have hov: "\<And>s'. pinnedDatatips s' = pinnedDatatips s \<Longrightarrow> isHoveringOverPinnedTip h s'"
    using assms by (auto simp: isHoveringOverPinnedTip_def filter_empty_conv)
  show ?thesis
    by (auto simp: startFetching_resume_def setState_def hideDatatip_def Let_def hov
        split: if_splits option.splits)
qed

lemma revalidate_hovering_hidden:
  assumes "pid \<in> set (pinnedDatatips s)" and "isHovering h pid"
    and "datatipState s = VISIBLE" and "\<not> insideDatatip s"
  shows "datatipState (hideIfOutsideImmediate h s) = HIDDEN"
proof -
  have "isHoveringOverPinnedTip h s"
    using assms by (auto simp: isHoveringOverPinnedTip_def filter_empty_conv)
  then show ?thesis
    using assms(3,4) by (simp add: hideIfOutsideImmediate_def setState_def hideDatatip_def)
qed

lemma pin_click_registers: "pid \<in> set (pinnedDatatips (handlePinClicked h pid d s))"
  by (simp add: handlePinClicked_def setState_def hideDatatip_def set_add_def Let_def)

lemma createPinnedDataTip_not_registered:
  "snd (createPinnedDataTip s pid d ed) = s"
  by (simp add: createPinnedDataTip_def)

subsection \<open>The toggle command\<close>

text \<open>
  Claim C5, amended.  In the active editor, a toggle command delivered as a
  keydown starts a fetch at the cursor's screen position, whatever the state
  is, exactly when the time since the last hide, computed as the code
  computes it (the difference of the two doubles), is more than 100; the state
  then becomes FETCHING.  Otherwise it leaves the session as it is; this is
  so in particular whenever the keydown comes 100ms or less (50ms, say) after
  the last hide.
\<close>

theorem toggle_keydown_after_hide:
  assumes "activeTextEditor h"
  shows "(number_less (Finite 100)
            (number_sub (Finite (performanceNow h)) (Finite (lastHiddenTime s))) \<longrightarrow>
            toggleDatatip h (Some ''keydown'') s
              = startFetching h CursorScreenPosition (s\<lparr>lastFetchedFromCursorPosition := True\<rparr>)
            \<and> datatipState (toggleDatatip h (Some ''keydown'') s) = FETCHING
            \<and> lastPosition (toggleDatatip h (Some ''keydown'') s) = Some (cursorScreenPosition h)
            \<and> inflight (toggleDatatip h (Some ''keydown'') s) = inflight s @ [CursorScreenPosition])
       \<and> (\<not> number_less (Finite 100)
              (number_sub (Finite (performanceNow h)) (Finite (lastHiddenTime s))) \<longrightarrow>
            toggleDatatip h (Some ''keydown'') s = s)
       \<and> (performanceNow h - lastHiddenTime s \<le> 100 \<longrightarrow>
            toggleDatatip h (Some ''keydown'') s = s)"
proof (intro conjI impI)
  assume far: "number_less (Finite 100)
            (number_sub (Finite (performanceNow h)) (Finite (lastHiddenTime s)))"
  then have eq: "toggleDatatip h (Some ''keydown'') s
              = startFetching h CursorScreenPosition (s\<lparr>lastFetchedFromCursorPosition := True\<rparr>)"
    using assms by (simp add: toggleDatatip_def)
  then show "toggleDatatip h (Some ''keydown'') s
              = startFetching h CursorScreenPosition (s\<lparr>lastFetchedFromCursorPosition := True\<rparr>)" .
  show "datatipState (toggleDatatip h (Some ''keydown'') s) = FETCHING"
    unfolding eq
    by (simp add: startFetching_def getPosition_def setState_def fetchAndRender_begin_def Let_def)
  show "lastPosition (toggleDatatip h (Some ''keydown'') s) = Some (cursorScreenPosition h)"
    unfolding eq
    by (auto simp: startFetching_def getPosition_def setState_def fetchAndRender_begin_def
        Let_def)
  show "inflight (toggleDatatip h (Some ''keydown'') s) = inflight s @ [CursorScreenPosition]"
    unfolding eq
    by (simp add: startFetching_def getPosition_def setState_def fetchAndRender_begin_def Let_def)
next
  assume "\<not> number_less (Finite 100)
              (number_sub (Finite (performanceNow h)) (Finite (lastHiddenTime s)))"
  then show "toggleDatatip h (Some ''keydown'') s = s"
    using assms by (simp add: toggleDatatip_def)
next
  assume "performanceNow h - lastHiddenTime s \<le> 100"
  then have "\<not> number_less (Finite 100) (round_double (performanceNow h - lastHiddenTime s))"
    by (rule round_double_le_100)
  then show "toggleDatatip h (Some ''keydown'') s = s"
    using assms by (simp add: toggleDatatip_def)
qed

text \<open>
  After the hide at time 2000, a keydown at 2050 changes nothing and a keydown
  at 2200 starts a fetch.
\<close>

theorem toggle_keydown_after_hide_witness:
  "activeTextEditor (hostAt 2050)
   \<and> performanceNow (hostAt 2050) - lastHiddenTime hiddenAt2000 \<le> 100
   \<and> toggleDatatip (hostAt 2050) (Some ''keydown'') hiddenAt2000 = hiddenAt2000
   \<and> number_less (Finite 100)
       (number_sub (Finite (performanceNow (hostAt 2200))) (Finite (lastHiddenTime hiddenAt2000)))
   \<and> datatipState (toggleDatatip (hostAt 2200) (Some ''keydown'') hiddenAt2000) = FETCHING
   \<and> inflight (toggleDatatip (hostAt 2200) (Some ''keydown'') hiddenAt2000)
       = [CursorScreenPosition]"
  using toggle_keydown_after_hide [of "hostAt 2050" hiddenAt2000]
    toggle_keydown_after_hide [of "hostAt 2200" hiddenAt2000]
  by (simp add: run_defs hiddenAt2000_def)

text \<open>
  The comparison is made on the rounded difference: with the last hide at
  \<open>2 ^ -47\<close> and the keydown at \<open>100 + 2 ^ -46\<close>, more than 100ms have passed,
  the computed difference is 100 and the toggle changes nothing.
\<close>

lemma toggle_keydown_rounded_to_100:
  assumes "activeTextEditor h" and "performanceNow h = 100 + 1 / 2 ^ 46"
    and "lastHiddenTime s = 1 / 2 ^ 47"
  shows "100 < performanceNow h - lastHiddenTime s
       \<and> toggleDatatip h (Some ''keydown'') s = s"
proof
  show "100 < performanceNow h - lastHiddenTime s"
    unfolding assms(2,3) by simp
  have "number_sub (Finite (performanceNow h)) (Finite (lastHiddenTime s)) = Finite 100"
    unfolding assms(2,3) number_sub.simps by (rule round_double_tie)
  then have "\<not> number_less (Finite 100)
              (number_sub (Finite (performanceNow h)) (Finite (lastHiddenTime s)))"
    by simp
  then show "toggleDatatip h (Some ''keydown'') s = s"
    using assms(1) unfolding toggleDatatip_def Let_def by simp
qed

subsection \<open>Hide or cancel\<close>

text \<open>
  Claim C7, amended.  On a hidden session \<open>_hideOrCancel\<close> keeps the state HIDDEN
  and changes one field only: \<open>_blacklistedPosition\<close> becomes the buffer
  position of the last mouse-move event (null when there is none).  It is a
  no-op exactly when that position is the one already blacklisted.  The
  function has no failing branch.
\<close>

theorem hideOrCancel_when_hidden:
  assumes "datatipState s = HIDDEN"
  shows "hideOrCancel h s = s\<lparr>blacklistedPosition := getBufferPosition h (lastMoveEvent s)\<rparr>
       \<and> datatipState (hideOrCancel h s) = HIDDEN
       \<and> (hideOrCancel h s = s
            \<longleftrightarrow> getBufferPosition h (lastMoveEvent s) = blacklistedPosition s)"
proof -
  have eq: "hideOrCancel h s = s\<lparr>blacklistedPosition := getBufferPosition h (lastMoveEvent s)\<rparr>"
    using assms by (simp add: hideOrCancel_def)
  have "(s\<lparr>blacklistedPosition := getBufferPosition h (lastMoveEvent s)\<rparr> = s)
          \<longleftrightarrow> getBufferPosition h (lastMoveEvent s) = blacklistedPosition s"
    by (cases s) auto
  with eq assms show ?thesis by simp
qed

theorem hideOrCancel_when_hidden_witness:
  "datatipState movedOnce = HIDDEN
   \<and> hideOrCancel (hostAt 10) movedOnce = movedOnce\<lparr>blacklistedPosition := Some (0, 2)\<rparr>
   \<and> datatipState (hideOrCancel (hostAt 10) movedOnce) = HIDDEN
   \<and> datatipState (newSession 1 noConfig) = HIDDEN
   \<and> hideOrCancel (hostAt 10) (newSession 1 noConfig) = newSession 1 noConfig"
  using hideOrCancel_when_hidden [of movedOnce "hostAt 10"]
    hideOrCancel_when_hidden [of "newSession 1 noConfig" "hostAt 10"]
  by (simp add: run_defs movedOnce_def)

subsection \<open>Pinned datatips through the manager\<close>

text \<open>
  Claim C9.  For an editor without a session in \<open>_editorManagers\<close>,
  \<open>createPinnedDataTip\<close> throws; for an editor with a session it returns the
  pinned datatip and leaves the manager, its sessions included, unchanged.
\<close>

theorem manager_createPinnedDataTip_spec:
  "(editorManagers m ed = None \<longrightarrow>
      manager_createPinnedDataTip m pid d ed
        = Inl (JSError
            ''Trying to create a pinned data tip on an editor that has no datatip manager''))
   \<and> (editorManagers m ed \<noteq> None \<longrightarrow>
      manager_createPinnedDataTip m pid d ed
        = Inr (\<lparr>pinned_id = pid, pinned_datatip = d, pinned_editor = ed\<rparr>, m))"
proof (intro conjI impI)
  assume "editorManagers m ed = None"
  then show "manager_createPinnedDataTip m pid d ed
        = Inl (JSError
            ''Trying to create a pinned data tip on an editor that has no datatip manager'')"
    by (simp add: manager_createPinnedDataTip_def)
next
  assume "editorManagers m ed \<noteq> None"
  then obtain mgr where mgr: "editorManagers m ed = Some mgr" by blast
  then have "(editorManagers m)(ed \<mapsto> mgr) = editorManagers m"
    by (rule map_upd_triv)
  then show "manager_createPinnedDataTip m pid d ed
        = Inr (\<lparr>pinned_id = pid, pinned_datatip = d, pinned_editor = ed\<rparr>, m)"
    by (simp add: manager_createPinnedDataTip_def createPinnedDataTip_def mgr)
qed

theorem manager_createPinnedDataTip_spec_witness:
  "editorManagers managerExample 2 = None
   \<and> manager_createPinnedDataTip managerExample 7 tipA 2
       = Inl (JSError
           ''Trying to create a pinned data tip on an editor that has no datatip manager'')
   \<and> editorManagers managerExample 1 = Some (newSession 1 noConfig)
   \<and> manager_createPinnedDataTip managerExample 7 tipA 1
       = Inr (\<lparr>pinned_id = 7, pinned_datatip = tipA, pinned_editor = 1\<rparr>, managerExample)"
  using manager_createPinnedDataTip_spec [of managerExample 2 7 tipA]
    manager_createPinnedDataTip_spec [of managerExample 1 7 tipA]
  by (simp add: managerExample_def noConfig_def)

subsection \<open>The first mouse move after focus\<close>

lemma focus_sets_drop_flag: "shouldDropNextMouseMoveAfterFocus (handle h Focus s)"
  by (simp add: onFocus_def setState_def hideDatatip_def Let_def)

lemma drop_flag_kept_step:
  "\<not> isMouseMove e \<Longrightarrow> shouldDropNextMouseMoveAfterFocus s \<Longrightarrow>
     shouldDropNextMouseMoveAfterFocus (handle h e s)"
  by (cases e)
    (auto simp: handler_defs Let_def split: if_splits option.splits sum.splits)

lemma drop_flag_kept_run:
  "\<forall>x \<in> set es. \<not> isMouseMove (snd x) \<Longrightarrow> shouldDropNextMouseMoveAfterFocus s \<Longrightarrow>
     shouldDropNextMouseMoveAfterFocus (run es s)"
proof (induction es arbitrary: s)
  case Nil
  then show ?case by simp
next
  case (Cons x es)
  obtain h e where x: "x = (h, e)" by (cases x)
  have "shouldDropNextMouseMoveAfterFocus (handle h e s)"
    using Cons.prems by (simp add: x drop_flag_kept_step)
  then show ?case
    using Cons.IH [of "handle h e s"] Cons.prems(1) by (simp add: x)
qed

lemma dropped_mouse_move:
  "shouldDropNextMouseMoveAfterFocus s \<Longrightarrow>
     handle h (MouseMove m) s
       = s\<lparr>lastFetchedFromCursorPosition := False,
            shouldDropNextMouseMoveAfterFocus := False\<rparr>"
  by (simp add: onMouseMove_def)

lemma kept_mouse_move:
  "\<not> shouldDropNextMouseMoveAfterFocus s \<Longrightarrow>
     lastMoveEvent (handle h (MouseMove m) s) = Some m
     \<and> (datatipState s = HIDDEN \<longrightarrow>
          timerPending (startFetchingDebounce (handle h (MouseMove m) s)))"
  by (auto simp: onMouseMove_def hideIfOutside_def hideIfOutsideImmediate_def setState_def
      hideDatatip_def callDebounced_def Let_def split: option.splits)

text \<open>
  Claim C10.  Let \<open>s1\<close> be the session after a focus event and any events that
  are not mouse moves.  The drop flag is set in \<open>s1\<close>, and the mouse move that
  comes next only clears it (and \<open>_lastFetchedFromCursorPosition\<close>): the move
  event is not recorded, neither debounce timer is armed, and state and
  fetches in flight are as before.  The mouse move after that one is
  recorded, and arms the fetch debounce when the session is hidden.
\<close>

theorem first_mouse_move_after_focus_dropped:
  assumes "\<forall>x \<in> set es. \<not> isMouseMove (snd x)"
    and "s1 = run es (handle h0 Focus s)"
    and "s2 = handle h (MouseMove m) s1"
  shows "shouldDropNextMouseMoveAfterFocus s1
       \<and> s2 = s1\<lparr>lastFetchedFromCursorPosition := False,
                 shouldDropNextMouseMoveAfterFocus := False\<rparr>
       \<and> lastMoveEvent s2 = lastMoveEvent s1
       \<and> startFetchingDebounce s2 = startFetchingDebounce s1
       \<and> hideIfOutsideDebounce s2 = hideIfOutsideDebounce s1
       \<and> datatipState s2 = datatipState s1
       \<and> inflight s2 = inflight s1
       \<and> lastMoveEvent (handle h' (MouseMove m') s2) = Some m'
       \<and> (datatipState s2 = HIDDEN \<longrightarrow>
            timerPending (startFetchingDebounce (handle h' (MouseMove m') s2)))"
proof -
  have flag: "shouldDropNextMouseMoveAfterFocus s1"
    unfolding assms(2) using assms(1) by (rule drop_flag_kept_run) (rule focus_sets_drop_flag)
  have s2: "s2 = s1\<lparr>lastFetchedFromCursorPosition := False,
                     shouldDropNextMouseMoveAfterFocus := False\<rparr>"
    unfolding assms(3) using flag by (rule dropped_mouse_move)
  have "\<not> shouldDropNextMouseMoveAfterFocus s2"
    by (simp add: s2)
  then have next_move: "lastMoveEvent (handle h' (MouseMove m') s2) = Some m'
     \<and> (datatipState s2 = HIDDEN \<longrightarrow>
          timerPending (startFetchingDebounce (handle h' (MouseMove m') s2)))"
    by (rule kept_mouse_move)
  show ?thesis
    using flag next_move by (simp add: s2)
qed

theorem first_mouse_move_after_focus_dropped_witness:
  "shouldDropNextMouseMoveAfterFocus
     (run [(hostAt 2, KeyDown (Some ALT))] (handle (hostAt 1) Focus (newSession 1 noConfig)))
   \<and> lastMoveEvent
       (handle (hostAt 3) (MouseMove moveExample)
         (run [(hostAt 2, KeyDown (Some ALT))] (handle (hostAt 1) Focus (newSession 1 noConfig))))
       = None
   \<and> timerPending (startFetchingDebounce
       (handle (hostAt 3) (MouseMove moveExample)
         (run [(hostAt 2, KeyDown (Some ALT))] (handle (hostAt 1) Focus (newSession 1 noConfig)))))
       = False
   \<and> timerPending (startFetchingDebounce
       (handle (hostAt 4) (MouseMove moveExample)
         (handle (hostAt 3) (MouseMove moveExample)
           (run [(hostAt 2, KeyDown (Some ALT))]
             (handle (hostAt 1) Focus (newSession 1 noConfig))))))"
  using first_mouse_move_after_focus_dropped
    [where es = "[(hostAt 2, KeyDown (Some ALT))]" and h0 = "hostAt 1"
      and s = "newSession 1 noConfig" and h = "hostAt 3" and m = moveExample
      and h' = "hostAt 4" and m' = moveExample, OF _ refl refl]
  by (simp add: run_defs)

end
